theory Spec2Isabelle
  imports
    Complex_Main
    "HOL-Library.Char_ord"
    "HOL-Library.List_Lexorder"
    "HOL-Library.Product_Lexorder"
    "HOL-Library.AList"
    "HOL-Library.Sublist"
begin

section \<open>Survivability export of MetaZebrobot (\<^verbatim>\<open>utils/export_module.py\<close>)\<close>

text \<open>
  The module reads one JSON document per fish dish, flattens every dish's quality checks
  into dated rows with running survival figures, and aggregates the dishes into one
  summary row per cross, genotype and fertilisation date.

  Conventions of the embedding.
  \<^item> A dish dictionary is a record. A key that the code reads with
    \<^verbatim>\<open>dict.get(key, default)\<close> is an \<open>option\<close> field (\<open>None\<close>: the key is absent) and
    the default is applied where the code applies it. Values have the types of the
    application's own data model (\<^verbatim>\<open>models/fish_dish.py\<close>): counts are Python integers
    (\<open>int\<close>), flags are booleans, identifiers and dates are strings.
  \<^item> A Python dictionary that is iterated is an association list in iteration
    (insertion) order.
  \<^item> Strings are compared as Python compares them, lexicographically by character
    code; tuples of strings lexicographically by component.
  \<^item> Python's true division of integers yields a float or raises; a quotient in the
    float range is idealised as the exact quotient over \<open>real\<close> (no rounding), and the
    two exceptions of the division are results of the model.
  \<^item> \<^verbatim>\<open>list.sort(key=...)\<close> is a stable sort; the stable insertion sort \<open>sort_key\<close>
    returns the same list.
\<close>

subsection \<open>Dish records\<close>

record structured_check =
  num_dead :: "int option"
  water_changed :: "bool option"
  vol_water_changed :: "int option"

text \<open>
  A quality-check entry is a dictionary (new format), a string (old format) or any other
  JSON value, which the row builder skips.
\<close>

datatype check_entry =
    StructuredCheck structured_check
  | LegacyNote string
  | InvalidEntry

record enclosure_info =
  in_beaker :: "bool option"
  room :: "string option"
  vol_water_total :: "int option"

record dish =
  dish_id :: "string option"
  cross_id :: "string option"
  date_created :: "string option"
  dof :: "string option"
  genotype :: "string option"
  fish_count :: "int option"
  status :: "string option"
  termination_date :: "string option"
  termination_reason :: "string option"
  responsible :: "string option"
  enclosure :: "enclosure_info option"
  quality_checks :: "(string \<times> check_entry) list"

text \<open>
  \<open>quality_checks\<close> is read with the default \<^verbatim>\<open>{}\<close> and only tested for emptiness and
  iterated, so an absent key and an empty dictionary are both the empty list.
\<close>

definition get_default :: "'a option \<Rightarrow> 'a \<Rightarrow> 'a" where
  "get_default v d = (case v of None \<Rightarrow> d | Some x \<Rightarrow> x)"

subsection \<open>Calendar dates: \<^verbatim>\<open>datetime.strptime(s, "%Y%m%d")\<close>\<close>

text \<open>
  The standard library compiles the format into the regular expression
  \<^verbatim>\<open>(\d\d\d\d)(1[0-2]|0[1-9]|[1-9])(3[01]|[12]\d|0[1-9]|[1-9]| [1-9])\<close>, takes the first
  match in backtracking order, and raises \<^verbatim>\<open>ValueError\<close> when there is no match, when
  input remains after the match, or when the fields are not a date of the proleptic
  Gregorian calendar with a year from 1 to 9999. The result here is the date's ordinal
  (days since 0001-01-01, plus one), \<open>None\<close> for \<^verbatim>\<open>ValueError\<close>. Digits are the ASCII digits.
\<close>

definition is_digit :: "char \<Rightarrow> bool" where
  "is_digit c = (CHR ''0'' \<le> c \<and> c \<le> CHR ''9'')"

definition digit_val :: "char \<Rightarrow> int" where
  "digit_val c = int (of_char c) - 48"

fun match_month :: "string \<Rightarrow> (int \<times> string) list" where
  "match_month (a # b # rest) =
     (if a = CHR ''1'' \<and> b \<in> set ''012'' then [(10 + digit_val b, rest)] else []) @
     (if a = CHR ''0'' \<and> is_digit b \<and> b \<noteq> CHR ''0'' then [(digit_val b, rest)] else []) @
     (if is_digit a \<and> a \<noteq> CHR ''0'' then [(digit_val a, b # rest)] else [])"
| "match_month [a] = (if is_digit a \<and> a \<noteq> CHR ''0'' then [(digit_val a, [])] else [])"
| "match_month [] = []"

fun match_day :: "string \<Rightarrow> (int \<times> string) option" where
  "match_day (a # b # rest) =
     (if a = CHR ''3'' \<and> b \<in> set ''01'' then Some (30 + digit_val b, rest)
      else if a \<in> set ''12'' \<and> is_digit b then Some (10 * digit_val a + digit_val b, rest)
      else if a = CHR ''0'' \<and> is_digit b \<and> b \<noteq> CHR ''0'' then Some (digit_val b, rest)
      else if is_digit a \<and> a \<noteq> CHR ''0'' then Some (digit_val a, b # rest)
      else if a = CHR '' '' \<and> is_digit b \<and> b \<noteq> CHR ''0'' then Some (digit_val b, rest)
      else None)"
| "match_day [a] = (if is_digit a \<and> a \<noteq> CHR ''0'' then Some (digit_val a, []) else None)"
| "match_day [] = None"

text \<open>
  The first month alternative after which a day matches is the regular expression's
  match; what it leaves unread is checked afterwards.
\<close>

fun first_match :: "(int \<times> string) list \<Rightarrow> (int \<times> int \<times> string) option" where
  "first_match [] = None"
| "first_match ((m, rest) # alts) =
     (case match_day rest of
        Some (d, rest') \<Rightarrow> Some (m, d, rest')
      | None \<Rightarrow> first_match alts)"

definition is_leap :: "int \<Rightarrow> bool" where
  "is_leap y = (if y mod 100 = 0 then y mod 400 = 0 else y mod 4 = 0)"

definition days_in_month :: "int \<Rightarrow> int \<Rightarrow> int" where
  "days_in_month y m =
     (if m = 2 then (if is_leap y then 29 else 28)
      else if m \<in> {4, 6, 9, 11} then 30 else 31)"

definition days_before_year :: "int \<Rightarrow> int" where
  "days_before_year y =
     (let p = y - 1 in p * 365 + p div 4 - p div 100 + p div 400)"

definition days_before_month :: "int \<Rightarrow> int \<Rightarrow> int" where
  "days_before_month y m = sum_list (map (days_in_month y) [1..m - 1])"

definition toordinal :: "int \<Rightarrow> int \<Rightarrow> int \<Rightarrow> int" where
  "toordinal y m d = days_before_year y + days_before_month y m + d"

definition strptime_Ymd :: "string \<Rightarrow> int option" where
  "strptime_Ymd s =
     (case s of
        y1 # y2 # y3 # y4 # rest \<Rightarrow>
          (if is_digit y1 \<and> is_digit y2 \<and> is_digit y3 \<and> is_digit y4 then
             (case first_match (match_month rest) of
                Some (m, d, rest') \<Rightarrow>
                  (let y = 1000 * digit_val y1 + 100 * digit_val y2
                           + 10 * digit_val y3 + digit_val y4
                   in if rest' = [] \<and> 1 \<le> y \<and> d \<le> days_in_month y m
                      then Some (toordinal y m d) else None)
              | None \<Rightarrow> None)
           else None)
      | _ \<Rightarrow> None)"

text \<open>
  \<^verbatim>\<open>_calculate_days_between\<close>: the difference of the two dates in days, and \<open>0\<close> when
  either string fails to parse (the \<^verbatim>\<open>except\<close> branch).
\<close>

definition calculate_days_between :: "string \<Rightarrow> string \<Rightarrow> int" where
  "calculate_days_between date1 date2 =
     (case strptime_Ymd date1 of
        None \<Rightarrow> 0
      | Some d1 \<Rightarrow>
          (case strptime_Ymd date2 of
             None \<Rightarrow> 0
           | Some d2 \<Rightarrow> d2 - d1))"

subsection \<open>Detailed report: \<^verbatim>\<open>_process_survivability_data\<close>\<close>

text \<open>
  The tuple that the trailing comma of line 152 builds,
  \<^verbatim>\<open>room = enclosure.get('room', 'unknown'),\<close>, needs a value type that tells a string
  from a tuple holding one.
\<close>

datatype pyval =
    PyStr string
  | PyTuple "pyval list"

text \<open>One entry of \<^verbatim>\<open>check_data\<close>.\<close>

record check_datum =
  cd_date :: string
  cd_num_dead :: int
  cd_water_changed :: bool
  cd_vol_water_changed :: int

text \<open>One row of the detailed report; \<open>r_x\<close> is the row's key \<^verbatim>\<open>x\<close>.\<close>

record row =
  r_dish_id :: string
  r_cross_id :: string
  r_genotype :: string
  r_date_fertilized :: string
  r_date_created :: string
  r_initial_count :: int
  r_check_date :: string
  r_fish_deaths :: int
  r_cumulative_deaths :: int
  r_remaining :: int
  r_survival_rate :: real
  r_days_since_fertilization :: int
  r_status :: string
  r_termination_date :: string
  r_termination_reason :: string
  r_responsible :: string
  r_in_beaker :: string
  r_vol_water_total :: int
  r_room :: pyval
  r_water_changed :: string
  r_vol_water_changed :: int

text \<open>Lines 174 to 184: the date of a check key of the new format.\<close>

definition check_date_of :: "string \<Rightarrow> string" where
  "check_date_of check_time =
     (if CHR '':'' \<in> set check_time then take 8 check_time else check_time)"

text \<open>Lines 163 to 201: the body of the loop over \<^verbatim>\<open>quality_checks.items()\<close>.\<close>

fun normalize_check :: "string \<times> check_entry \<Rightarrow> check_datum option" where
  "normalize_check (check_time, StructuredCheck c) =
     (let nd = get_default (num_dead c) 0;
          wc = get_default (water_changed c) False;
          vol = (if wc then get_default (vol_water_changed c) 0 else 0)
      in Some \<lparr>cd_date = check_date_of check_time, cd_num_dead = nd,
               cd_water_changed = wc, cd_vol_water_changed = vol\<rparr>)"
| "normalize_check (check_time, LegacyNote s) =
     Some \<lparr>cd_date = check_time, cd_num_dead = 0,
           cd_water_changed = False, cd_vol_water_changed = 0\<rparr>"
| "normalize_check (check_time, InvalidEntry) = None"

fun extract_check_data :: "(string \<times> check_entry) list \<Rightarrow> check_datum list" where
  "extract_check_data [] = []"
| "extract_check_data (item # items) =
     (case normalize_check item of
        None \<Rightarrow> extract_check_data items
      | Some cd \<Rightarrow> cd # extract_check_data items)"

text \<open>\<^verbatim>\<open>'Yes' if flag else 'No'\<close>\<close>

definition yes_no :: "bool \<Rightarrow> string" where
  "yes_no b = (if b then ''Yes'' else ''No'')"

text \<open>\<^verbatim>\<open>value or ''\<close> for an optional string.\<close>

definition or_empty :: "string option \<Rightarrow> string" where
  "or_empty v = (case v of None \<Rightarrow> [] | Some s \<Rightarrow> s)"

text \<open>
  Exceptions are values. Python's \<^verbatim>\<open>a / b\<close> on integers raises
  \<^verbatim>\<open>ZeroDivisionError\<close> for a zero divisor and \<^verbatim>\<open>OverflowError\<close> when the quotient,
  rounded to the nearest double, would be \<open>2 ^ 1024\<close> or more in magnitude, which is when
  the exact quotient is at least \<open>2 ^ 1024 - 2 ^ 970\<close> in magnitude.
\<close>

datatype exn =
    ZeroDivisionError
  | OverflowError
  | NameError
  | AttributeError
  | OSError
  | JSONDecodeError

definition float_limit :: int where
  "float_limit = 2 ^ 1024 - 2 ^ 970"

definition true_div :: "int \<Rightarrow> int \<Rightarrow> exn + real" where
  "true_div a b =
     (if b = 0 then Inl ZeroDivisionError
      else if float_limit * \<bar>b\<bar> \<le> \<bar>a\<bar> then Inl OverflowError
      else Inr (real_of_int a / real_of_int b))"

text \<open>
  Line 224: the conditional expression of \<^verbatim>\<open>survival_rate\<close>. The product with \<open>100\<close>
  is a float product, which raises nothing.
\<close>

definition rate_of :: "int \<Rightarrow> int \<Rightarrow> exn + real" where
  "rate_of remaining initial_count =
     (if initial_count > 0 then
        (case true_div remaining initial_count of
           Inl e \<Rightarrow> Inl e
         | Inr q \<Rightarrow> Inr (q * 100))
      else Inr 0)"

text \<open>
  Lines 213 to 235: the row of one check, given the running \<open>remaining\<close> after the
  check's deaths have been subtracted. The static values are those read at lines 136 to
  153; \<open>room\<close> is the one-element tuple of line 152.
\<close>

definition make_row :: "dish \<Rightarrow> int \<Rightarrow> check_datum \<Rightarrow> exn + row" where
  "make_row d remaining chk =
     (let initial_count = get_default (fish_count d) 0;
          dof' = get_default (dof d) ''unknown'';
          encl = get_default (enclosure d)
                   \<lparr>in_beaker = None, room = None, vol_water_total = None\<rparr>;
          in_beaker' = get_default (in_beaker encl) False;
          room' = PyTuple [PyStr (get_default (room encl) ''unknown'')];
          total_volume = get_default (vol_water_total encl) 0
      in case rate_of remaining initial_count of
           Inl e \<Rightarrow> Inl e
         | Inr rate \<Rightarrow>
             Inr \<lparr>r_dish_id = get_default (dish_id d) ''unknown'',
                  r_cross_id = get_default (cross_id d) ''unknown'',
                  r_genotype = get_default (genotype d) ''unknown'',
                  r_date_fertilized = dof',
                  r_date_created = get_default (date_created d) ''unknown'',
                  r_initial_count = initial_count,
                  r_check_date = cd_date chk,
                  r_fish_deaths = cd_num_dead chk,
                  r_cumulative_deaths = initial_count - remaining,
                  r_remaining = remaining,
                  r_survival_rate = rate,
                  r_days_since_fertilization = calculate_days_between dof' (cd_date chk),
                  r_status = get_default (status d) ''unknown'',
                  r_termination_date = or_empty (termination_date d),
                  r_termination_reason = or_empty (termination_reason d),
                  r_responsible = get_default (responsible d) ''unknown'',
                  r_in_beaker = yes_no in_beaker',
                  r_vol_water_total = total_volume,
                  r_room = room',
                  r_water_changed = yes_no (cd_water_changed chk),
                  r_vol_water_changed = cd_vol_water_changed chk\<rparr>)"

text \<open>
  Lines 207 to 236: the loop over the sorted checks, \<open>remaining\<close> threaded through. An
  exception leaves the loop for the handler of line 238, which logs it; the rows already
  appended stay in the report.
\<close>

fun accumulate_rows :: "dish \<Rightarrow> int \<Rightarrow> check_datum list \<Rightarrow> row list" where
  "accumulate_rows d remaining [] = []"
| "accumulate_rows d remaining (chk # chks) =
     (let remaining' = remaining - cd_num_dead chk
      in case make_row d remaining' chk of
           Inl e \<Rightarrow> []
         | Inr r \<Rightarrow> r # accumulate_rows d remaining' chks)"

text \<open>The rows one dish appends to the report (the body of the loop over the dishes).\<close>

definition dish_rows :: "dish \<Rightarrow> row list" where
  "dish_rows d =
     (if quality_checks d = [] then []
      else accumulate_rows d (get_default (fish_count d) 0)
             (sort_key cd_date (extract_check_data (quality_checks d))))"

fun process_dishes :: "dish list \<Rightarrow> row list \<Rightarrow> row list" where
  "process_dishes [] report_rows = report_rows"
| "process_dishes (d # ds) report_rows = process_dishes ds (report_rows @ dish_rows d)"

definition process_survivability_data :: "dish list \<Rightarrow> row list" where
  "process_survivability_data dishes_data = process_dishes dishes_data []"

subsection \<open>Summary report: \<^verbatim>\<open>_process_summary_data\<close>\<close>

text \<open>One value of the dictionary \<^verbatim>\<open>summary\<close>, which is also one row of the summary report.\<close>

record summary_row =
  s_cross_id :: string
  s_genotype :: string
  s_date_fertilized :: string
  dish_count :: int
  total_initial :: int
  total_surviving :: int
  survival_rate :: real
  max_days :: int

text \<open>Line 355: \<^verbatim>\<open>f"{cross_id}_{genotype}_{dof}"\<close>\<close>

definition group_key :: "dish \<Rightarrow> string" where
  "group_key d =
     get_default (cross_id d) ''unknown'' @ ''_'' @
     get_default (genotype d) ''unknown'' @ ''_'' @
     get_default (dof d) ''unknown''"

text \<open>Lines 358 to 367: the entry of a group that is not in \<^verbatim>\<open>summary\<close> yet.\<close>

definition new_group :: "dish \<Rightarrow> summary_row" where
  "new_group d =
     \<lparr>s_cross_id = get_default (cross_id d) ''unknown'',
      s_genotype = get_default (genotype d) ''unknown'',
      s_date_fertilized = get_default (dof d) ''unknown'',
      dish_count = 0, total_initial = 0, total_surviving = 0,
      survival_rate = 0, max_days = 0\<rparr>"

text \<open>
  Lines 377 to 389: the loop over the checks with its two variables
  \<open>(final_count, latest_date)\<close>; only dictionary checks are looked at.
\<close>

fun scan_checks :: "(string \<times> check_entry) list \<Rightarrow> int \<times> string \<Rightarrow> int \<times> string" where
  "scan_checks [] st = st"
| "scan_checks ((check_time, StructuredCheck c) # items) (final_count, latest_date) =
     (let check_date = check_date_of check_time
      in scan_checks items
           (final_count - get_default (num_dead c) 0,
            if check_date > latest_date then check_date else latest_date))"
| "scan_checks ((check_time, LegacyNote s) # items) st = scan_checks items st"
| "scan_checks ((check_time, InvalidEntry) # items) st = scan_checks items st"

text \<open>Lines 370 to 397: what one contributing dish adds to its group's entry.\<close>

definition add_dish :: "dish \<Rightarrow> summary_row \<Rightarrow> summary_row" where
  "add_dish d g =
     (let initial_count = get_default (fish_count d) 0;
          (final_count, latest_date) = scan_checks (quality_checks d) (initial_count, [])
      in g\<lparr>dish_count := dish_count g + 1,
            total_initial := total_initial g + initial_count,
            total_surviving := total_surviving g + max 0 final_count,
            max_days :=
              (if latest_date \<noteq> []
               then max (max_days g)
                      (calculate_days_between (get_default (dof d) ''unknown'') latest_date)
               else max_days g)\<rparr>)"

text \<open>
  Lines 343 to 397: the body of the loop over the dishes. \<open>AList.update\<close> replaces the
  value of a key in place and appends a new key at the end, as assignment to a Python
  dictionary does.
\<close>

definition summarize_dish :: "(string \<times> summary_row) list \<Rightarrow> dish \<Rightarrow> (string \<times> summary_row) list" where
  "summarize_dish summary d =
     (if quality_checks d = [] then summary
      else
        (let g = (case map_of summary (group_key d) of
                    None \<Rightarrow> new_group d
                  | Some g \<Rightarrow> g)
         in AList.update (group_key d) (add_dish d g) summary))"

fun summarize :: "dish list \<Rightarrow> (string \<times> summary_row) list \<Rightarrow> (string \<times> summary_row) list" where
  "summarize [] summary = summary"
| "summarize (d # ds) summary = summarize ds (summarize_dish summary d)"

text \<open>Lines 404 to 407; this loop is outside every \<^verbatim>\<open>try\<close> of the function.\<close>

definition finalize_row :: "summary_row \<Rightarrow> exn + summary_row" where
  "finalize_row data =
     (if total_initial data > 0 then
        (case true_div (total_surviving data) (total_initial data) of
           Inl e \<Rightarrow> Inl e
         | Inr q \<Rightarrow> Inr (data\<lparr>survival_rate := q * 100\<rparr>))
      else Inr data)"

fun finalize_rows :: "(string \<times> summary_row) list \<Rightarrow> exn + summary_row list" where
  "finalize_rows [] = Inr []"
| "finalize_rows ((key, data) # items) =
     (case finalize_row data of
        Inl e \<Rightarrow> Inl e
      | Inr r \<Rightarrow>
          (case finalize_rows items of
             Inl e \<Rightarrow> Inl e
           | Inr rs \<Rightarrow> Inr (r # rs)))"

definition process_summary_data :: "dish list \<Rightarrow> exn + summary_row list" where
  "process_summary_data dishes_data =
     (case finalize_rows (summarize dishes_data []) of
        Inl e \<Rightarrow> Inl e
      | Inr summary_rows \<Rightarrow>
          Inr (sort_key (\<lambda>x. (s_cross_id x, s_genotype x)) summary_rows))"

subsection \<open>Loading the dish files: \<^verbatim>\<open>_collect_dishes_data\<close>\<close>

text \<open>
  What \<^verbatim>\<open>json.load\<close> returns for one file: a dictionary, or a JSON value of another kind.
  Opening or parsing a file can raise; so can listing the directory (and the
  directory attribute of an uninitialised data manager is \<^verbatim>\<open>None\<close>, on which \<^verbatim>\<open>glob\<close> raises
  \<^verbatim>\<open>AttributeError\<close>).
\<close>

datatype json_doc =
    JsonObject dish
  | JsonOther

type_synonym dish_file = "exn + json_doc"

type_synonym directory = "exn + dish_file list"

fun load_files :: "dish_file list \<Rightarrow> dish list \<Rightarrow> dish list" where
  "load_files [] dishes_data = dishes_data"
| "load_files (Inl e # files) dishes_data = load_files files dishes_data"
| "load_files (Inr JsonOther # files) dishes_data = load_files files dishes_data"
| "load_files (Inr (JsonObject dish_data) # files) dishes_data =
     (if dish_id dish_data = None then load_files files dishes_data
      else load_files files (dishes_data @ [dish_data]))"

definition collect_dishes_data :: "directory \<Rightarrow> dish list" where
  "collect_dishes_data dish_dir =
     (case dish_dir of
        Inl e \<Rightarrow> []
      | Inr json_files \<Rightarrow> load_files json_files [])"

subsection \<open>Writing and the two export operations\<close>

text \<open>
  The file system maps a path to what the file holds. Whether \<^verbatim>\<open>open\<close> and the writes
  succeed is the environment's choice, an argument of the model.
\<close>

datatype 'r csv_file =
    CsvFile "'r list"
  | Incomplete

datatype write_outcome =
    OpenFails
  | WriteFails
  | WriteSucceeds

definition write_csv_report ::
  "'r list \<Rightarrow> string \<Rightarrow> write_outcome \<Rightarrow> (string \<rightharpoonup> 'r csv_file) \<Rightarrow> bool \<times> (string \<rightharpoonup> 'r csv_file)" where
  "write_csv_report report_data output_path io fs =
     (if report_data = [] then (False, fs)
      else
        (case io of
           OpenFails \<Rightarrow> (False, fs)
         | WriteFails \<Rightarrow> (False, fs(output_path \<mapsto> Incomplete))
         | WriteSucceeds \<Rightarrow> (True, fs(output_path \<mapsto> CsvFile report_data))))"

text \<open>
  \<open>data_manager\<close> is \<open>None\<close> when the module's imports of it failed, so that naming it
  raises \<^verbatim>\<open>NameError\<close>; otherwise it holds the dish directory. The body of each export
  operation is one \<^verbatim>\<open>try\<close> block, here a function whose result is the raised exception
  or the returned value; the handler \<^verbatim>\<open>except Exception: return False\<close> is applied to it.
\<close>

definition except_return_False :: "(exn + bool) \<times> 'fs \<Rightarrow> bool \<times> 'fs" where
  "except_return_False res =
     (case res of
        (Inl e, fs) \<Rightarrow> (False, fs)
      | (Inr b, fs) \<Rightarrow> (b, fs))"

definition report_try ::
  "directory option \<Rightarrow> string \<Rightarrow> write_outcome \<Rightarrow> (string \<rightharpoonup> row csv_file) \<Rightarrow> (exn + bool) \<times> (string \<rightharpoonup> row csv_file)" where
  "report_try data_manager output_path io fs =
     (case data_manager of
        None \<Rightarrow> (Inl NameError, fs)
      | Some dish_dir \<Rightarrow>
          (let dishes_data = collect_dishes_data dish_dir
           in if dishes_data = [] then (Inr False, fs)
              else
                (case write_csv_report (process_survivability_data dishes_data)
                        output_path io fs of
                   (b, fs') \<Rightarrow> (Inr b, fs'))))"

definition export_survivability_report ::
  "directory option \<Rightarrow> string \<Rightarrow> write_outcome \<Rightarrow> (string \<rightharpoonup> row csv_file) \<Rightarrow> bool \<times> (string \<rightharpoonup> row csv_file)" where
  "export_survivability_report data_manager output_path io fs =
     except_return_False (report_try data_manager output_path io fs)"

definition summary_try ::
  "directory option \<Rightarrow> string \<Rightarrow> write_outcome \<Rightarrow> (string \<rightharpoonup> summary_row csv_file) \<Rightarrow> (exn + bool) \<times> (string \<rightharpoonup> summary_row csv_file)" where
  "summary_try data_manager output_path io fs =
     (case data_manager of
        None \<Rightarrow> (Inl NameError, fs)
      | Some dish_dir \<Rightarrow>
          (let dishes_data = collect_dishes_data dish_dir
           in if dishes_data = [] then (Inr False, fs)
              else
                (case process_summary_data dishes_data of
                   Inl e \<Rightarrow> (Inl e, fs)
                 | Inr summary_data \<Rightarrow>
                     (case write_csv_report summary_data output_path io fs of
                        (b, fs') \<Rightarrow> (Inr b, fs')))))"

definition export_survivability_summary ::
  "directory option \<Rightarrow> string \<Rightarrow> write_outcome \<Rightarrow> (string \<rightharpoonup> summary_row csv_file) \<Rightarrow> bool \<times> (string \<rightharpoonup> summary_row csv_file)" where
  "export_survivability_summary data_manager output_path io fs =
     except_return_False (summary_try data_manager output_path io fs)"

subsection \<open>Quantities the properties speak of\<close>

text \<open>The deaths that the checks of a dish report: \<^verbatim>\<open>num_dead\<close> of every dictionary check.\<close>

fun deaths_of :: "check_entry \<Rightarrow> int" where
  "deaths_of (StructuredCheck c) = get_default (num_dead c) 0"
| "deaths_of (LegacyNote s) = 0"
| "deaths_of InvalidEntry = 0"

definition total_deaths :: "dish \<Rightarrow> int" where
  "total_deaths d = sum_list (map (deaths_of \<circ> snd) (quality_checks d))"

text \<open>
  When line 224 (and line 406) raises: the count is positive and the quotient is beyond the
  float range.
\<close>

definition rate_raises :: "int \<Rightarrow> int \<Rightarrow> bool" where
  "rate_raises remaining n = (0 < n \<and> float_limit * \<bar>n\<bar> \<le> \<bar>remaining\<bar>)"

text \<open>
  No check of the list makes line 224 raise, \<open>remaining\<close> running from \<open>rem\<close>; and the
  same for a dish, over its checks in the order of the rows.
\<close>

fun no_overflow_from :: "int \<Rightarrow> int \<Rightarrow> check_datum list \<Rightarrow> bool" where
  "no_overflow_from n rem [] = True"
| "no_overflow_from n rem (chk # chks) =
     (\<not> rate_raises (rem - cd_num_dead chk) n \<and>
      no_overflow_from n (rem - cd_num_dead chk) chks)"

definition no_overflow :: "dish \<Rightarrow> bool" where
  "no_overflow d =
     no_overflow_from (get_default (fish_count d) 0) (get_default (fish_count d) 0)
       (sort_key cd_date (extract_check_data (quality_checks d)))"

text \<open>Some group of the summary dictionary makes line 406 raise.\<close>

definition summary_raises :: "(string \<times> summary_row) list \<Rightarrow> bool" where
  "summary_raises summary =
     list_ex (\<lambda>item. rate_raises (total_surviving (snd item)) (total_initial (snd item)))
       summary"

text \<open>What a row records of the check it was built from.\<close>

definition row_check :: "row \<Rightarrow> check_datum" where
  "row_check r =
     \<lparr>cd_date = r_check_date r, cd_num_dead = r_fish_deaths r,
      cd_water_changed = (r_water_changed r = ''Yes''),
      cd_vol_water_changed = r_vol_water_changed r\<rparr>"

text \<open>
  The canonical date of a check: the first eight characters of the key of a dictionary
  check whose key holds a colon, the key itself in every other case.
\<close>

fun canonical_date :: "string \<times> check_entry \<Rightarrow> string" where
  "canonical_date (key, StructuredCheck c) =
     (if CHR '':'' \<in> set key then take 8 key else key)"
| "canonical_date (key, LegacyNote s) = key"
| "canonical_date (key, InvalidEntry) = key"

text \<open>The entries that are checks: dictionaries and strings.\<close>

fun is_check :: "string \<times> check_entry \<Rightarrow> bool" where
  "is_check (key, InvalidEntry) = False"
| "is_check (key, e) = True"

text \<open>The dish a file contributes: a parsed dictionary that has the key \<^verbatim>\<open>dish_id\<close>.\<close>

fun valid_dishes :: "dish_file \<Rightarrow> dish list" where
  "valid_dishes (Inr (JsonObject d)) = (if dish_id d = None then [] else [d])"
| "valid_dishes (Inr JsonOther) = []"
| "valid_dishes (Inl e) = []"

text \<open>What the loop of lines 404 to 407 makes of a group's entry.\<close>

definition finalized :: "summary_row \<Rightarrow> summary_row" where
  "finalized data =
     (if total_initial data > 0
      then data\<lparr>survival_rate :=
             real_of_int (total_surviving data) / real_of_int (total_initial data) * 100\<rparr>
      else data)"

text \<open>The dishes of a group: those with quality checks whose grouping key is \<open>k\<close>.\<close>

definition group_dishes :: "string \<Rightarrow> dish list \<Rightarrow> dish list" where
  "group_dishes k ds = filter (\<lambda>d. quality_checks d \<noteq> [] \<and> group_key d = k) ds"

fun is_structured :: "string \<times> check_entry \<Rightarrow> bool" where
  "is_structured (key, StructuredCheck c) = True"
| "is_structured (key, e) = False"

text \<open>
  The greatest canonical date among the dictionary checks of a dish, the empty string
  when there is none; and the days from fertilisation to that date.
\<close>

definition latest_structured_date :: "dish \<Rightarrow> string" where
  "latest_structured_date d =
     Max (set ([] # map canonical_date (filter is_structured (quality_checks d))))"

definition latest_check_days :: "dish \<Rightarrow> int" where
  "latest_check_days d =
     calculate_days_between (get_default (dof d) ''unknown'') (latest_structured_date d)"

definition dated :: "dish \<Rightarrow> bool" where
  "dated d = (latest_structured_date d \<noteq> [])"

text \<open>The survivors a dish adds to its group.\<close>

definition surviving :: "dish \<Rightarrow> int" where
  "surviving d = max 0 (get_default (fish_count d) 0 - total_deaths d)"

text \<open>
  The greatest canonical date among all checks of a dish, strings of the old format
  included, and the days from fertilisation to it.
\<close>

definition latest_date_of_all_checks :: "dish \<Rightarrow> string" where
  "latest_date_of_all_checks d =
     Max (set (map canonical_date (filter is_check (quality_checks d))))"

definition days_to_latest_of_all_checks :: "dish \<Rightarrow> int" where
  "days_to_latest_of_all_checks d =
     calculate_days_between (get_default (dof d) ''unknown'') (latest_date_of_all_checks d)"

text \<open>A group's entry after the dishes \<open>G\<close> have been added to the entry \<open>g\<close>, in order.\<close>

definition add_all :: "summary_row \<Rightarrow> dish list \<Rightarrow> summary_row" where
  "add_all g G = foldl (\<lambda>g d. add_dish d g) g G"

subsection \<open>Example dishes\<close>

text \<open>
  A dish of three fish whose checks report five deaths; its keys are out of date order,
  one is a time stamp and one check is a string of the old format.
\<close>

definition overcounted_dish :: dish where
  "overcounted_dish =
     \<lparr>dish_id = Some ''X1_1'', cross_id = Some ''X1'', date_created = Some ''20240101'',
      dof = Some ''20240101'', genotype = Some ''wt'', fish_count = Some 3,
      status = Some ''active'', termination_date = None, termination_reason = None,
      responsible = Some ''jd'', enclosure = None,
      quality_checks =
        [(''20240103'', StructuredCheck \<lparr>num_dead = Some 4, water_changed = None,
                                         vol_water_changed = None\<rparr>),
         (''20240102'', LegacyNote ''normal''),
         (''2024010209:30:00'', StructuredCheck \<lparr>num_dead = Some 1,
                                         water_changed = Some True,
                                         vol_water_changed = Some 20\<rparr>)]\<rparr>"

text \<open>
  A dish in a beaker of room 2E.282 with two checks on the same day, met in the order
  evening, morning, and an entry that is neither a dictionary nor a string.
\<close>

definition tied_dish :: dish where
  "tied_dish =
     \<lparr>dish_id = Some ''X2_1'', cross_id = Some ''X2'', date_created = Some ''20240101'',
      dof = Some ''20240101'', genotype = Some ''wt'', fish_count = Some 10,
      status = Some ''active'', termination_date = None, termination_reason = None,
      responsible = Some ''jd'',
      enclosure = Some \<lparr>in_beaker = Some True, room = Some ''2E.282'',
                         vol_water_total = Some 50\<rparr>,
      quality_checks =
        [(''2024010518:00:00'', StructuredCheck \<lparr>num_dead = Some 3, water_changed = None,
                                         vol_water_changed = None\<rparr>),
         (''20240102'', LegacyNote ''normal''),
         (''2024010508:00:00'', StructuredCheck \<lparr>num_dead = Some 1, water_changed = None,
                                         vol_water_changed = None\<rparr>),
         (''20240103'', InvalidEntry)]\<rparr>"

text \<open>A dish without fish that still reports a death, one without checks, one without id.\<close>

definition fishless_dish :: dish where
  "fishless_dish =
     tied_dish\<lparr>dish_id := Some ''X3_1'', fish_count := Some 0,
       quality_checks :=
         [(''20240104'', StructuredCheck \<lparr>num_dead = Some 1, water_changed = None,
                                          vol_water_changed = None\<rparr>)]\<rparr>"

definition unchecked_dish :: dish where
  "unchecked_dish = tied_dish\<lparr>dish_id := Some ''X2_2'', quality_checks := []\<rparr>"

definition no_id_dish :: dish where
  "no_id_dish = overcounted_dish\<lparr>dish_id := None\<rparr>"

text \<open>
  Two dishes of one cross, genotype and fertilisation date: ten fish with two deaths and
  twenty fish with four.
\<close>

definition dish_a :: dish where
  "dish_a =
     \<lparr>dish_id = Some ''X5_1'', cross_id = Some ''X5'', date_created = Some ''20240101'',
      dof = Some ''20240101'', genotype = Some ''nacre'', fish_count = Some 10,
      status = Some ''active'', termination_date = None, termination_reason = None,
      responsible = Some ''jd'', enclosure = None,
      quality_checks =
        [(''20240102'', StructuredCheck \<lparr>num_dead = Some 2, water_changed = None,
                                         vol_water_changed = None\<rparr>)]\<rparr>"

definition dish_b :: dish where
  "dish_b =
     dish_a\<lparr>dish_id := Some ''X5_2'', fish_count := Some 20,
       quality_checks :=
         [(''20240102'', StructuredCheck \<lparr>num_dead = Some 1, water_changed = None,
                                          vol_water_changed = None\<rparr>),
          (''2024010409:00:00'', StructuredCheck \<lparr>num_dead = Some 3, water_changed = None,
                                          vol_water_changed = None\<rparr>)]\<rparr>"

text \<open>
  A dish whose last check is a string of the old format, a week after its only dictionary
  check; and a dish whose fertilisation date lies after its only check.
\<close>

definition legacy_last_dish :: dish where
  "legacy_last_dish =
     dish_a\<lparr>dish_id := Some ''X6_1'', cross_id := Some ''X6'',
       quality_checks :=
         [(''20240103'', StructuredCheck \<lparr>num_dead = Some 0, water_changed = None,
                                          vol_water_changed = None\<rparr>),
          (''20240110'', LegacyNote ''normal'')]\<rparr>"

definition late_dof_dish :: dish where
  "late_dof_dish =
     dish_a\<lparr>dish_id := Some ''X7_1'', cross_id := Some ''X7'', dof := Some ''20240110'',
       quality_checks :=
         [(''20240103'', StructuredCheck \<lparr>num_dead = Some 0, water_changed = None,
                                          vol_water_changed = None\<rparr>)]\<rparr>"

text \<open>
  A dish of one fish whose second check reports \<open>10 ^ 309\<close> deaths, and a dish of dish_a's
  group whose check reports \<open>- 10 ^ 310\<close> deaths.
\<close>

definition overflow_dish :: dish where
  "overflow_dish =
     dish_a\<lparr>dish_id := Some ''X8_1'', cross_id := Some ''X8'', fish_count := Some 1,
       quality_checks :=
         [(''20240102'', StructuredCheck \<lparr>num_dead = Some 0, water_changed = None,
                                          vol_water_changed = None\<rparr>),
          (''20240103'', StructuredCheck \<lparr>num_dead = Some (10 ^ 309), water_changed = None,
                                          vol_water_changed = None\<rparr>)]\<rparr>"

definition swollen_dish :: dish where
  "swollen_dish =
     dish_a\<lparr>dish_id := Some ''X5_3'', fish_count := Some 1,
       quality_checks :=
         [(''20240102'', StructuredCheck \<lparr>num_dead = Some (- (10 ^ 310)),
                                          water_changed = None,
                                          vol_water_changed = None\<rparr>)]\<rparr>"

section \<open>Properties\<close>

subsection \<open>Rows of one dish\<close>

lemma float_limit_gt_1: "1 < float_limit"
  by (simp add: float_limit_def)

lemma rate_of_cases:
  "rate_of remaining n =
     (if rate_raises remaining n then Inl OverflowError
      else Inr (if n > 0 then real_of_int remaining / real_of_int n * 100 else 0))"
  by (auto simp: rate_of_def true_div_def rate_raises_def)

lemma make_row_raises:
  "rate_raises remaining (get_default (fish_count d) 0) \<Longrightarrow>
   make_row d remaining chk = Inl OverflowError"
  by (simp add: make_row_def Let_def rate_of_cases)

lemma make_row_Inr:
  "\<not> rate_raises remaining (get_default (fish_count d) 0) \<Longrightarrow>
   \<exists>r. make_row d remaining chk = Inr r \<and>
       r_initial_count r = get_default (fish_count d) 0 \<and> r_remaining r = remaining"
  by (simp add: make_row_def Let_def rate_of_cases)

lemma make_row_remaining: "make_row d remaining chk = Inr r \<Longrightarrow> r_remaining r = remaining"
  by (auto simp: make_row_def Let_def rate_of_cases split: if_splits)

lemma accumulate_rows_length:
  "no_overflow_from (get_default (fish_count d) 0) remaining chks \<Longrightarrow>
   length (accumulate_rows d remaining chks) = length chks"
proof (induction chks arbitrary: remaining)
  case Nil
  show ?case by simp
next
  case (Cons chk chks)
  from Cons.prems obtain r where "make_row d (remaining - cd_num_dead chk) chk = Inr r"
    using make_row_Inr by fastforce
  with Cons show ?case by (simp add: Let_def)
qed

lemma accumulate_rows_last:
  "no_overflow_from (get_default (fish_count d) 0) remaining chks \<Longrightarrow> chks \<noteq> [] \<Longrightarrow>
   r_remaining (last (accumulate_rows d remaining chks)) =
     remaining - sum_list (map cd_num_dead chks)"
proof (induction chks arbitrary: remaining)
  case Nil
  then show ?case by simp
next
  case (Cons chk chks)
  from Cons.prems(1) have rest:
    "no_overflow_from (get_default (fish_count d) 0) (remaining - cd_num_dead chk) chks"
    by simp
  from Cons.prems(1) obtain r where r: "make_row d (remaining - cd_num_dead chk) chk = Inr r"
    using make_row_Inr by fastforce
  show ?case
  proof (cases "chks = []")
    case True
    with r show ?thesis by (simp add: Let_def make_row_remaining)
  next
    case False
    then have ne: "accumulate_rows d (remaining - cd_num_dead chk) chks \<noteq> []"
      using accumulate_rows_length [OF rest] by auto
    from Cons.IH [OF rest False] r ne
    show ?thesis by (simp add: Let_def)
  qed
qed

lemma sum_list_insort_key:
  fixes f :: "'a \<Rightarrow> int"
  shows "sum_list (map f (insort_key k x xs)) = f x + sum_list (map f xs)"
  by (induction xs) auto

lemma sum_list_sort_key:
  fixes f :: "'a \<Rightarrow> int"
  shows "sum_list (map f (sort_key k xs)) = sum_list (map f xs)"
  by (induction xs) (auto simp: sum_list_insort_key)

lemma extract_check_data_deaths:
  "sum_list (map cd_num_dead (extract_check_data qc)) = sum_list (map (deaths_of \<circ> snd) qc)"
proof (induction qc)
  case Nil
  show ?case by simp
next
  case (Cons item qc)
  obtain t e where item: "item = (t, e)" by (cases item)
  with Cons show ?case by (cases e) (simp_all add: Let_def)
qed

text \<open>
  C1, amended. Whenever a dish emits rows and none of its checks makes the division of
  line 224 leave the float range, the last of its rows has \<open>remaining\<close> equal to the
  dish's \<open>fish_count\<close> minus the deaths that all its checks report. Nothing clamps the
  value: it is negative when the deaths exceed the count.
\<close>

theorem last_row_remaining:
  assumes "dish_rows d \<noteq> []" and "no_overflow d"
  shows "r_remaining (last (dish_rows d)) = get_default (fish_count d) 0 - total_deaths d"
proof -
  let ?chks = "sort_key cd_date (extract_check_data (quality_checks d))"
  from assms(1) have rows:
    "dish_rows d = accumulate_rows d (get_default (fish_count d) 0) ?chks"
    by (simp add: dish_rows_def split: if_splits)
  with assms(1) have ne: "?chks \<noteq> []" by auto
  from assms(2) have "no_overflow_from (get_default (fish_count d) 0)
      (get_default (fish_count d) 0) ?chks"
    by (simp add: no_overflow_def)
  then have "r_remaining (last (dish_rows d)) =
      get_default (fish_count d) 0 - sum_list (map cd_num_dead ?chks)"
    unfolding rows using ne by (rule accumulate_rows_last)
  then show ?thesis
    by (simp add: sum_list_sort_key extract_check_data_deaths total_deaths_def)
qed

theorem last_row_remaining_witness:
  "dish_rows overcounted_dish \<noteq> [] \<and> no_overflow overcounted_dish \<and>
   get_default (fish_count overcounted_dish) 0 = 3 \<and>
   total_deaths overcounted_dish = 5 \<and>
   r_remaining (last (dish_rows overcounted_dish)) = - 2"
proof -
  have ne: "dish_rows overcounted_dish \<noteq> []" by code_simp
  have no: "no_overflow overcounted_dish" by code_simp
  have n: "get_default (fish_count overcounted_dish) 0 = 3" by code_simp
  have dd: "total_deaths overcounted_dish = 5" by code_simp
  from last_row_remaining [OF ne no] ne no n dd show ?thesis by simp
qed

text \<open>
  C1 as stated fails. The dish of one fish whose checks report \<open>0\<close> and then \<open>10 ^ 309\<close>
  deaths emits the row of its first check only: at the second check the division of
  line 224 raises \<^verbatim>\<open>OverflowError\<close>, which ends the dish's loop. Its last row has
  \<open>remaining = 1\<close>, while \<open>fish_count\<close> minus the deaths is \<open>1 - 10 ^ 309\<close>.
\<close>

theorem last_row_before_overflow:
  "map r_remaining (dish_rows overflow_dish) = [1] \<and>
   r_remaining (last (dish_rows overflow_dish)) = 1 \<and>
   get_default (fish_count overflow_dish) 0 = 1 \<and>
   total_deaths overflow_dish = 10 ^ 309"
proof -
  have a: "map r_remaining (dish_rows overflow_dish) = [1]" by code_simp
  have b: "r_remaining (last (dish_rows overflow_dish)) = 1" by code_simp
  have c: "get_default (fish_count overflow_dish) 0 = 1" by code_simp
  have d: "total_deaths overflow_dish = 10 ^ 309" by code_simp
  from a b c d show ?thesis by blast
qed

lemma process_dishes_concat:
  "process_dishes ds report_rows = report_rows @ concat (map dish_rows ds)"
  by (induction ds arbitrary: report_rows) simp_all

lemma process_survivability_data_concat:
  "process_survivability_data ds = concat (map dish_rows ds)"
  by (simp add: process_survivability_data_def process_dishes_concat)

lemma accumulate_rows_made:
  "r \<in> set (accumulate_rows d remaining chks) \<Longrightarrow>
   \<exists>remaining' chk. make_row d remaining' chk = Inr r"
proof (induction chks arbitrary: remaining)
  case Nil
  then show ?case by simp
next
  case (Cons chk chks)
  show ?case
  proof (cases "make_row d (remaining - cd_num_dead chk) chk")
    case (Inl e)
    with Cons.prems show ?thesis by (simp add: Let_def)
  next
    case (Inr r0)
    with Cons.prems
    have "r = r0 \<or> r \<in> set (accumulate_rows d (remaining - cd_num_dead chk) chks)"
      by (simp add: Let_def)
    then show ?thesis
    proof
      assume "r = r0"
      with Inr show ?thesis by blast
    next
      assume "r \<in> set (accumulate_rows d (remaining - cd_num_dead chk) chks)"
      then show ?thesis by (rule Cons.IH)
    qed
  qed
qed

lemma report_rows_made:
  assumes "r \<in> set (process_survivability_data ds)"
  shows "\<exists>d remaining chk. d \<in> set ds \<and> make_row d remaining chk = Inr r"
proof -
  from assms obtain d where d: "d \<in> set ds" and r: "r \<in> set (dish_rows d)"
    by (auto simp: process_survivability_data_concat)
  from r have "r \<in> set (accumulate_rows d (get_default (fish_count d) 0)
      (sort_key cd_date (extract_check_data (quality_checks d))))"
    by (simp add: dish_rows_def split: if_splits)
  with d show ?thesis by (blast dest: accumulate_rows_made)
qed

lemma make_row_rate:
  assumes "make_row d remaining chk = Inr r"
  shows "r_survival_rate r =
      (if r_initial_count r > 0
       then real_of_int (r_remaining r) / real_of_int (r_initial_count r) * 100 else 0)"
  using assms by (auto simp: make_row_def Let_def rate_of_cases split: if_splits)

text \<open>
  C2, amended. Every row of the report has
  \<open>survival_rate = remaining / initial_count * 100\<close> when its \<open>initial_count\<close> (the
  dish's \<open>fish_count\<close>) is positive, and \<open>0\<close> when it is zero. Building a row never raises
  \<^verbatim>\<open>ZeroDivisionError\<close>: the division is only reached with a positive \<open>fish_count\<close>. It
  raises \<^verbatim>\<open>OverflowError\<close> exactly when \<open>fish_count\<close> is positive and the quotient
  \<open>remaining / fish_count\<close> is beyond the float range, and gives the row in every other
  case.
\<close>

theorem survival_rate_guarded:
  "make_row d remaining chk \<noteq> Inl ZeroDivisionError \<and>
   (if rate_raises remaining (get_default (fish_count d) 0)
    then make_row d remaining chk = Inl OverflowError
    else \<exists>r. make_row d remaining chk = Inr r \<and>
             r_initial_count r = get_default (fish_count d) 0 \<and> r_remaining r = remaining) \<and>
   (\<forall>r \<in> set (process_survivability_data ds).
      (0 < r_initial_count r \<longrightarrow>
         r_survival_rate r =
           real_of_int (r_remaining r) / real_of_int (r_initial_count r) * 100) \<and>
      (r_initial_count r = 0 \<longrightarrow> r_survival_rate r = 0))"
proof (intro conjI ballI)
  show cases: "if rate_raises remaining (get_default (fish_count d) 0)
    then make_row d remaining chk = Inl OverflowError
    else \<exists>r. make_row d remaining chk = Inr r \<and>
             r_initial_count r = get_default (fish_count d) 0 \<and> r_remaining r = remaining"
    using make_row_raises [of remaining d chk] make_row_Inr [of remaining d chk] by simp
  then show "make_row d remaining chk \<noteq> Inl ZeroDivisionError"
    by (auto split: if_splits)
next
  fix r assume "r \<in> set (process_survivability_data ds)"
  then obtain d' rem' chk' where m: "make_row d' rem' chk' = Inr r"
    using report_rows_made by blast
  from make_row_rate [OF m]
  show "0 < r_initial_count r \<longrightarrow>
      r_survival_rate r = real_of_int (r_remaining r) / real_of_int (r_initial_count r) * 100"
    by simp
  from make_row_rate [OF m]
  show "r_initial_count r = 0 \<longrightarrow> r_survival_rate r = 0" by simp
qed

theorem survival_rate_guarded_witness:
  "last (dish_rows overcounted_dish) \<in> set (process_survivability_data [overcounted_dish]) \<and>
   r_initial_count (last (dish_rows overcounted_dish)) = 3 \<and>
   r_remaining (last (dish_rows overcounted_dish)) = - 2 \<and>
   r_survival_rate (last (dish_rows overcounted_dish)) = real_of_int (- 2) / real_of_int 3 * 100 \<and>
   last (dish_rows fishless_dish) \<in> set (process_survivability_data [fishless_dish]) \<and>
   r_initial_count (last (dish_rows fishless_dish)) = 0 \<and>
   r_remaining (last (dish_rows fishless_dish)) = - 1 \<and>
   r_survival_rate (last (dish_rows fishless_dish)) = 0 \<and>
   make_row fishless_dish (- 1)
     \<lparr>cd_date = ''20240104'', cd_num_dead = 1, cd_water_changed = False,
        cd_vol_water_changed = 0\<rparr> \<noteq> Inl ZeroDivisionError"
proof -
  let ?chk = "\<lparr>cd_date = ''20240104'', cd_num_dead = 1, cd_water_changed = False,
        cd_vol_water_changed = 0\<rparr>"
  have ne1: "dish_rows overcounted_dish \<noteq> []" by code_simp
  have ne2: "dish_rows fishless_dish \<noteq> []" by code_simp
  have in1: "last (dish_rows overcounted_dish) \<in> set (process_survivability_data [overcounted_dish])"
    using ne1 by (simp add: process_survivability_data_concat)
  have in2: "last (dish_rows fishless_dish) \<in> set (process_survivability_data [fishless_dish])"
    using ne2 by (simp add: process_survivability_data_concat)
  have n1: "r_initial_count (last (dish_rows overcounted_dish)) = 3" by code_simp
  have n2: "r_initial_count (last (dish_rows fishless_dish)) = 0" by code_simp
  have m1: "r_remaining (last (dish_rows overcounted_dish)) = - 2" by code_simp
  have m2: "r_remaining (last (dish_rows fishless_dish)) = - 1" by code_simp
  from survival_rate_guarded [of overcounted_dish 0 ?chk "[overcounted_dish]"] in1 n1 m1
  have r1: "r_survival_rate (last (dish_rows overcounted_dish)) =
      real_of_int (- 2) / real_of_int 3 * 100"
    by auto
  from survival_rate_guarded [of fishless_dish "- 1" ?chk "[fishless_dish]"] in2 n2
  have r2: "r_survival_rate (last (dish_rows fishless_dish)) = 0"
    and z: "make_row fishless_dish (- 1) ?chk \<noteq> Inl ZeroDivisionError"
    by auto
  from in1 in2 n1 n2 m1 m2 r1 r2 z show ?thesis by blast
qed

text \<open>
  C2 as stated fails in its last part: building a row is not total. For the dish of one
  fish and the check of \<open>10 ^ 309\<close> deaths, line 224 divides \<open>1 - 10 ^ 309\<close> by \<open>1\<close> and
  raises \<^verbatim>\<open>OverflowError\<close>, so there is no row.
\<close>

theorem row_construction_overflows:
  "make_row overflow_dish (1 - 10 ^ 309)
     \<lparr>cd_date = ''20240103'', cd_num_dead = 10 ^ 309, cd_water_changed = False,
        cd_vol_water_changed = 0\<rparr> = Inl OverflowError \<and>
   length (extract_check_data (quality_checks overflow_dish)) = 2 \<and>
   length (dish_rows overflow_dish) = 1"
proof -
  have a: "make_row overflow_dish (1 - 10 ^ 309)
     \<lparr>cd_date = ''20240103'', cd_num_dead = 10 ^ 309, cd_water_changed = False,
        cd_vol_water_changed = 0\<rparr> = Inl OverflowError"
    by code_simp
  have b: "length (extract_check_data (quality_checks overflow_dish)) = 2" by code_simp
  have c: "length (dish_rows overflow_dish) = 1" by code_simp
  from a b c show ?thesis by blast
qed

subsection \<open>Order of the rows of a dish\<close>

lemma make_row_check: "make_row d remaining chk = Inr r \<Longrightarrow> row_check r = chk"
  by (auto simp: make_row_def Let_def rate_of_cases row_check_def yes_no_def
      split: if_splits)

lemma accumulate_rows_checks_prefix:
  "prefix (map row_check (accumulate_rows d remaining chks)) chks"
proof (induction chks arbitrary: remaining)
  case Nil
  show ?case by simp
next
  case (Cons chk chks)
  show ?case
  proof (cases "make_row d (remaining - cd_num_dead chk) chk")
    case (Inl e)
    then show ?thesis by (simp add: Let_def)
  next
    case (Inr r)
    with Cons [of "remaining - cd_num_dead chk"] show ?thesis
      by (simp add: Let_def make_row_check)
  qed
qed

lemma accumulate_rows_checks:
  "no_overflow_from (get_default (fish_count d) 0) remaining chks \<Longrightarrow>
   map row_check (accumulate_rows d remaining chks) = chks"
proof (induction chks arbitrary: remaining)
  case Nil
  show ?case by simp
next
  case (Cons chk chks)
  from Cons.prems obtain r where r: "make_row d (remaining - cd_num_dead chk) chk = Inr r"
    using make_row_Inr by fastforce
  with Cons show ?case by (simp add: Let_def make_row_check)
qed

lemma dish_rows_checks_prefix:
  "prefix (map row_check (dish_rows d))
     (sort_key cd_date (extract_check_data (quality_checks d)))"
  by (simp add: dish_rows_def accumulate_rows_checks_prefix)

lemma dish_rows_checks:
  "no_overflow d \<Longrightarrow>
   map row_check (dish_rows d) = sort_key cd_date (extract_check_data (quality_checks d))"
  by (simp add: dish_rows_def no_overflow_def accumulate_rows_checks)

lemma row_check_date: "cd_date (row_check r) = r_check_date r"
  by (simp add: row_check_def)

lemma sorted_prefix:
  fixes ys :: "'a :: linorder list"
  assumes "prefix xs ys" and "sorted ys"
  shows "sorted xs"
proof -
  from assms(1) obtain zs where "ys = xs @ zs" by (auto simp: prefix_def)
  with assms(2) show ?thesis by (simp add: sorted_append)
qed

lemma extract_check_data_dates:
  "map cd_date (extract_check_data qc) = map canonical_date (filter is_check qc)"
proof (induction qc)
  case Nil
  show ?case by simp
next
  case (Cons item qc)
  obtain t e where "item = (t, e)" by (cases item)
  with Cons show ?case by (cases e) (simp_all add: Let_def check_date_of_def)
qed

text \<open>
  C4. The report is the concatenation of the dishes' rows in the order of the dishes. The
  rows of a dish are sorted ascending by check date, and rows of equal date keep the order
  in which the dictionary yields their checks: for every date \<open>k\<close>, the checks of the rows
  dated \<open>k\<close> are an initial part, in encounter order, of the dish's checks dated \<open>k\<close>.
  They are all of them when no check of the dish makes line 224 raise; then the rows are
  the dish's checks, stably sorted by date. The date of a check is its canonical date: the
  first eight characters of the key for a dictionary check whose key holds a colon, the
  key otherwise.
\<close>

theorem dish_rows_sorted_stable:
  "process_survivability_data ds = concat (map dish_rows ds) \<and>
   sorted (map r_check_date (dish_rows d)) \<and>
   (\<forall>k. prefix (filter (\<lambda>c. cd_date c = k) (map row_check (dish_rows d)))
          (filter (\<lambda>c. cd_date c = k) (extract_check_data (quality_checks d)))) \<and>
   (no_overflow d \<longrightarrow>
      map row_check (dish_rows d) =
        sort_key cd_date (extract_check_data (quality_checks d)) \<and>
      (\<forall>k. filter (\<lambda>c. cd_date c = k) (map row_check (dish_rows d)) =
           filter (\<lambda>c. cd_date c = k) (extract_check_data (quality_checks d)))) \<and>
   map cd_date (extract_check_data (quality_checks d)) =
     map canonical_date (filter is_check (quality_checks d))"
proof (intro conjI allI impI)
  let ?sorted = "sort_key cd_date (extract_check_data (quality_checks d))"
  show "process_survivability_data ds = concat (map dish_rows ds)"
    by (rule process_survivability_data_concat)
  have "prefix (map cd_date (map row_check (dish_rows d))) (map cd_date ?sorted)"
    using dish_rows_checks_prefix by (rule map_mono_prefix)
  then have "sorted (map cd_date (map row_check (dish_rows d)))"
    by (rule sorted_prefix) simp
  then show "sorted (map r_check_date (dish_rows d))"
    by (simp add: row_check_date comp_def)
  show "prefix (filter (\<lambda>c. cd_date c = k) (map row_check (dish_rows d)))
          (filter (\<lambda>c. cd_date c = k) (extract_check_data (quality_checks d)))" for k
  proof -
    have "prefix (filter (\<lambda>c. cd_date c = k) (map row_check (dish_rows d)))
        (filter (\<lambda>c. cd_date c = k) ?sorted)"
      using dish_rows_checks_prefix by (rule filter_mono_prefix)
    then show ?thesis by (simp only: sort_key_stable)
  qed
  show "map row_check (dish_rows d) = ?sorted" if "no_overflow d"
    using that by (rule dish_rows_checks)
  show "filter (\<lambda>c. cd_date c = k) (map row_check (dish_rows d)) =
        filter (\<lambda>c. cd_date c = k) (extract_check_data (quality_checks d))"
    if "no_overflow d" for k
    using that by (simp only: dish_rows_checks sort_key_stable)
  show "map cd_date (extract_check_data (quality_checks d)) =
     map canonical_date (filter is_check (quality_checks d))"
    by (rule extract_check_data_dates)
qed

theorem dish_rows_sorted_stable_witness:
  "no_overflow tied_dish \<and>
   map r_check_date (dish_rows tied_dish) = [''20240102'', ''20240105'', ''20240105''] \<and>
   sorted (map r_check_date (dish_rows tied_dish)) \<and>
   map cd_num_dead (filter (\<lambda>c. cd_date c = ''20240105'') (map row_check (dish_rows tied_dish)))
     = [3, 1] \<and>
   map canonical_date (filter is_check (quality_checks tied_dish)) =
     [''20240105'', ''20240102'', ''20240105'']"
proof -
  have no: "no_overflow tied_dish" by code_simp
  have a: "map r_check_date (dish_rows tied_dish) = [''20240102'', ''20240105'', ''20240105'']"
    by code_simp
  have b: "map cd_num_dead (filter (\<lambda>c. cd_date c = ''20240105'')
      (extract_check_data (quality_checks tied_dish))) = [3, 1]"
    by code_simp
  have c: "map cd_date (extract_check_data (quality_checks tied_dish)) =
     [''20240105'', ''20240102'', ''20240105'']"
    by code_simp
  note inst = dish_rows_sorted_stable [of "[tied_dish]" tied_dish]
  from inst have s: "sorted (map r_check_date (dish_rows tied_dish))" by blast
  from inst no
  have "filter (\<lambda>c. cd_date c = ''20240105'') (map row_check (dish_rows tied_dish)) =
      filter (\<lambda>c. cd_date c = ''20240105'') (extract_check_data (quality_checks tied_dish))"
    by blast
  with b have t: "map cd_num_dead (filter (\<lambda>c. cd_date c = ''20240105'')
      (map row_check (dish_rows tied_dish))) = [3, 1]"
    by simp
  from inst c have "map canonical_date (filter is_check (quality_checks tied_dish)) =
     [''20240105'', ''20240102'', ''20240105'']"
    by simp
  with no a s t show ?thesis by blast
qed

subsection \<open>The room of a row\<close>

text \<open>
  C6. The rows of the dish kept in room 2E.282 do not hold that string in their \<open>room\<close>
  field but the one-element tuple around it, which the CSV writer renders as
  \<^verbatim>\<open>('2E.282',)\<close>; the beaker flag is rendered \<^verbatim>\<open>Yes\<close>.
\<close>

theorem room_is_a_tuple:
  "map r_room (process_survivability_data [tied_dish]) =
     [PyTuple [PyStr ''2E.282''], PyTuple [PyStr ''2E.282''], PyTuple [PyStr ''2E.282'']] \<and>
   PyTuple [PyStr ''2E.282''] \<noteq> PyStr ''2E.282'' \<and>
   map r_in_beaker (process_survivability_data [tied_dish]) = [''Yes'', ''Yes'', ''Yes'']"
proof -
  have a: "map r_room (process_survivability_data [tied_dish]) =
     [PyTuple [PyStr ''2E.282''], PyTuple [PyStr ''2E.282''], PyTuple [PyStr ''2E.282'']]"
    by code_simp
  have b: "map r_in_beaker (process_survivability_data [tied_dish]) = [''Yes'', ''Yes'', ''Yes'']"
    by code_simp
  from a b show ?thesis by simp
qed

subsection \<open>Dishes without quality checks\<close>

lemma summarize_append: "summarize (xs @ ys) s = summarize ys (summarize xs s)"
  by (induction xs arbitrary: s) simp_all

text \<open>
  C7. A dish whose \<open>quality_checks\<close> is empty emits no row and leaves the summary
  dictionary as it is; among any other dishes, both reports are what they are without it.
\<close>

theorem empty_checks_contribute_nothing:
  assumes "quality_checks d = []"
  shows "dish_rows d = [] \<and>
         process_survivability_data (xs @ d # ys) = process_survivability_data (xs @ ys) \<and>
         summarize_dish summary d = summary \<and>
         process_summary_data (xs @ d # ys) = process_summary_data (xs @ ys)"
proof -
  from assms have rows: "dish_rows d = []" by (simp add: dish_rows_def)
  from assms have same: "summarize_dish s d = s" for s by (simp add: summarize_dish_def)
  have "summarize (xs @ d # ys) [] = summarize (xs @ ys) []"
    by (simp add: summarize_append same)
  then have "process_summary_data (xs @ d # ys) = process_summary_data (xs @ ys)"
    by (simp add: process_summary_data_def)
  with rows same show ?thesis
    by (simp add: process_survivability_data_concat)
qed

theorem empty_checks_contribute_nothing_witness:
  "quality_checks unchecked_dish = [] \<and>
   dish_rows unchecked_dish = [] \<and>
   process_survivability_data [overcounted_dish, unchecked_dish, tied_dish] =
     process_survivability_data [overcounted_dish, tied_dish] \<and>
   process_summary_data [overcounted_dish, unchecked_dish, tied_dish] =
     process_summary_data [overcounted_dish, tied_dish]"
proof -
  have e: "quality_checks unchecked_dish = []" by (simp add: unchecked_dish_def)
  from empty_checks_contribute_nothing [OF e, of "[overcounted_dish]" "[tied_dish]"] e
  show ?thesis by simp
qed

subsection \<open>Loading and exporting\<close>

lemma load_files_concat:
  "load_files files dishes_data = dishes_data @ concat (map valid_dishes files)"
  by (induction files dishes_data rule: load_files.induct) simp_all

text \<open>
  C8. The loader returns, in the order of the listing, exactly the files that parsed to a
  dictionary with a \<open>dish_id\<close> key. A file that fails to open or parse, or that holds
  another JSON value, changes nothing of the result for the files around it. A directory
  whose listing raises gives the empty list.
\<close>

theorem collect_dishes_data_valid_files:
  "collect_dishes_data (Inr files) = concat (map valid_dishes files) \<and>
   collect_dishes_data (Inr (before @ Inl e # after)) =
     collect_dishes_data (Inr (before @ after)) \<and>
   collect_dishes_data (Inr (before @ Inr JsonOther # after)) =
     collect_dishes_data (Inr (before @ after)) \<and>
   collect_dishes_data (Inl e') = []"
  by (simp add: collect_dishes_data_def load_files_concat)

theorem collect_dishes_data_valid_files_witness:
  "collect_dishes_data (Inr [Inl JSONDecodeError, Inr (JsonObject tied_dish)]) = [tied_dish] \<and>
   collect_dishes_data (Inr [Inr (JsonObject no_id_dish), Inr JsonOther, Inl OSError,
      Inr (JsonObject tied_dish)]) = [tied_dish] \<and>
   collect_dishes_data (Inl OSError) = []"
proof -
  have a: "dish_id tied_dish \<noteq> None" by (simp add: tied_dish_def)
  have b: "dish_id no_id_dish = None" by (simp add: no_id_dish_def)
  from a b
    collect_dishes_data_valid_files [of "[Inl JSONDecodeError, Inr (JsonObject tied_dish)]"
      "[]" JSONDecodeError "[]" OSError]
    collect_dishes_data_valid_files [of "[Inr (JsonObject no_id_dish), Inr JsonOther, Inl OSError,
      Inr (JsonObject tied_dish)]" "[]" JSONDecodeError "[]" OSError]
  show ?thesis by simp
qed

lemma no_checks_no_rows:
  assumes "\<forall>d \<in> set ds. quality_checks d = []"
  shows "process_survivability_data ds = []"
  using assms by (simp add: process_survivability_data_concat dish_rows_def)

lemma no_checks_no_groups:
  "\<forall>d \<in> set ds. quality_checks d = [] \<Longrightarrow> summarize ds s = s"
  by (induction ds arbitrary: s) (simp_all add: summarize_dish_def)

lemma no_checks_no_summary:
  assumes "\<forall>d \<in> set ds. quality_checks d = []"
  shows "process_summary_data ds = Inr []"
  using assms by (simp add: process_summary_data_def no_checks_no_groups)

text \<open>
  C9. Both export operations return a truth value on every input, whatever is raised
  inside: the handler turns it into \<open>False\<close>. When no loaded dish has a quality check (in
  particular when no dish was loaded, or the data manager is missing), both return
  \<open>False\<close> and leave the file system as it was, so no file appears at the output path.
\<close>

theorem exports_fail_without_data:
  assumes "\<forall>d \<in> set (collect_dishes_data dish_dir). quality_checks d = []"
  shows "export_survivability_report (Some dish_dir) output_path io fs = (False, fs) \<and>
         export_survivability_summary (Some dish_dir) output_path io fs' = (False, fs') \<and>
         export_survivability_report None output_path io fs = (False, fs) \<and>
         export_survivability_summary None output_path io fs' = (False, fs')"
  using assms
  by (simp add: export_survivability_report_def export_survivability_summary_def
      report_try_def summary_try_def except_return_False_def Let_def
      no_checks_no_rows no_checks_no_summary write_csv_report_def)

theorem exports_fail_without_data_witness:
  "collect_dishes_data (Inr [Inr (JsonObject unchecked_dish)]) = [unchecked_dish] \<and>
   quality_checks unchecked_dish = [] \<and>
   export_survivability_report (Some (Inr [Inr (JsonObject unchecked_dish)])) ''out.csv''
     WriteSucceeds Map.empty = (False, Map.empty) \<and>
   export_survivability_summary (Some (Inr [Inr (JsonObject unchecked_dish)])) ''out.csv''
     WriteSucceeds Map.empty = (False, Map.empty) \<and>
   export_survivability_report (Some (Inr [])) ''out.csv'' WriteSucceeds Map.empty
     = (False, Map.empty) \<and>
   export_survivability_summary (Some (Inr [])) ''out.csv'' WriteSucceeds Map.empty
     = (False, Map.empty)"
proof -
  have c: "collect_dishes_data (Inr [Inr (JsonObject unchecked_dish)]) = [unchecked_dish]"
    by (simp add: collect_dishes_data_def unchecked_dish_def tied_dish_def)
  have q: "quality_checks unchecked_dish = []" by (simp add: unchecked_dish_def)
  have h: "\<forall>d \<in> set (collect_dishes_data (Inr [Inr (JsonObject unchecked_dish)])).
      quality_checks d = []"
    using c q by simp
  have h0: "\<forall>d \<in> set (collect_dishes_data (Inr [])). quality_checks d = []"
    by (simp add: collect_dishes_data_def)
  from exports_fail_without_data [OF h, of "''out.csv''" WriteSucceeds Map.empty Map.empty]
    exports_fail_without_data [OF h0, of "''out.csv''" WriteSucceeds Map.empty Map.empty]
    c q
  show ?thesis by simp
qed


subsection \<open>Groups of the summary\<close>

lemma finalize_row_cases:
  "finalize_row data =
     (if rate_raises (total_surviving data) (total_initial data) then Inl OverflowError
      else Inr (finalized data))"
  by (auto simp: finalize_row_def finalized_def true_div_def rate_raises_def)

lemma finalize_rows_cases:
  "finalize_rows s =
     (if summary_raises s then Inl OverflowError else Inr (map (finalized \<circ> snd) s))"
  by (induction s rule: finalize_rows.induct)
    (simp_all add: finalize_row_cases summary_raises_def)

lemma process_summary_data_cases:
  "process_summary_data ds =
     (if summary_raises (summarize ds []) then Inl OverflowError
      else Inr (sort_key (\<lambda>x. (s_cross_id x, s_genotype x))
                 (map (finalized \<circ> snd) (summarize ds []))))"
  by (simp add: process_summary_data_def finalize_rows_cases)

lemma scan_checks_result:
  "scan_checks qc (fc, l) =
     (fc - sum_list (map (deaths_of \<circ> snd) qc),
      fold max (map canonical_date (filter is_structured qc)) l)"
proof (induction qc "(fc, l)" arbitrary: fc l rule: scan_checks.induct)
  case 1
  show ?case by simp
next
  case (2 check_time c items final_count latest_date)
  let ?cd = "check_date_of check_time"
  have m: "(if latest_date < ?cd then ?cd else latest_date) = max ?cd latest_date"
    by (auto simp: max_def dest: leD)
  have c: "canonical_date (check_time, StructuredCheck c) = ?cd"
    by (simp add: check_date_of_def)
  have "scan_checks ((check_time, StructuredCheck c) # items) (final_count, latest_date) =
      scan_checks items (final_count - get_default (num_dead c) 0, max ?cd latest_date)"
    by (simp add: Let_def m)
  also have "\<dots> =
      (final_count - get_default (num_dead c) 0 - sum_list (map (deaths_of \<circ> snd) items),
       fold max (map canonical_date (filter is_structured items)) (max ?cd latest_date))"
    using "2.hyps" [OF refl] by (simp only: m)
  finally show ?case
    by (simp add: c del: canonical_date.simps)
next
  case (3 check_time s items)
  then show ?case by simp
next
  case (4 check_time items)
  then show ?case by simp
qed

lemma scan_checks_dish:
  "scan_checks (quality_checks d) (get_default (fish_count d) 0, []) =
     (get_default (fish_count d) 0 - total_deaths d, latest_structured_date d)"
  by (simp add: scan_checks_result total_deaths_def latest_structured_date_def
      Max.set_eq_fold del: set_simps)

lemma add_dish_eq:
  "add_dish d g =
     g\<lparr>dish_count := dish_count g + 1,
       total_initial := total_initial g + get_default (fish_count d) 0,
       total_surviving := total_surviving g + surviving d,
       max_days := (if dated d then max (max_days g) (latest_check_days d) else max_days g)\<rparr>"
  by (simp add: add_dish_def Let_def scan_checks_dish surviving_def dated_def
      latest_check_days_def)

lemma add_all_Nil: "add_all g [] = g"
  by (simp add: add_all_def)

lemma add_all_Cons: "add_all g (d # G) = add_all (add_dish d g) G"
  by (simp add: add_all_def)

lemma add_all_counts:
  "dish_count (add_all g G) = dish_count g + int (length G) \<and>
   total_initial (add_all g G) =
     total_initial g + sum_list (map (\<lambda>e. get_default (fish_count e) 0) G) \<and>
   total_surviving (add_all g G) = total_surviving g + sum_list (map surviving G) \<and>
   survival_rate (add_all g G) = survival_rate g \<and>
   s_cross_id (add_all g G) = s_cross_id g \<and>
   s_genotype (add_all g G) = s_genotype g \<and>
   s_date_fertilized (add_all g G) = s_date_fertilized g"
proof (induction G arbitrary: g)
  case Nil
  show ?case by (simp add: add_all_Nil)
next
  case (Cons d G)
  show ?case
    unfolding add_all_Cons using Cons [of "add_dish d g"]
    by (simp add: add_dish_eq)
qed

lemma add_all_max_days:
  "max_days (add_all g G) = Max (set (max_days g # map latest_check_days (filter dated G)))"
proof (induction G arbitrary: g)
  case Nil
  show ?case by (simp add: add_all_Nil)
next
  case (Cons d G)
  let ?S = "set (map latest_check_days (filter dated G))"
  have fin: "finite ?S" by simp
  show ?case
  proof (cases "dated d")
    case False
    then show ?thesis
      unfolding add_all_Cons using Cons [of "add_dish d g"]
      by (simp add: add_dish_eq)
  next
    case True
    have "Max (insert (max (max_days g) (latest_check_days d)) ?S) =
          Max (insert (max_days g) (insert (latest_check_days d) ?S))"
      using fin by (cases "?S = {}") (simp_all add: max.assoc)
    with True show ?thesis
      unfolding add_all_Cons using Cons [of "add_dish d g"]
      by (simp add: add_dish_eq)
  qed
qed

lemma map_of_summarize_dish:
  "map_of (summarize_dish s d) k =
     (if quality_checks d \<noteq> [] \<and> group_key d = k
      then Some (add_dish d (case map_of s k of None \<Rightarrow> new_group d | Some g \<Rightarrow> g))
      else map_of s k)"
  by (simp add: summarize_dish_def Let_def update_conv')

lemma map_of_summarize:
  "map_of (summarize ds s) k =
     (case group_dishes k ds of
        [] \<Rightarrow> map_of s k
      | d0 # G \<Rightarrow>
          Some (add_all (case map_of s k of None \<Rightarrow> new_group d0 | Some g \<Rightarrow> g)
                  (group_dishes k ds)))"
proof (induction ds arbitrary: s)
  case Nil
  show ?case by (simp add: group_dishes_def)
next
  case (Cons d ds)
  show ?case
  proof (cases "quality_checks d \<noteq> [] \<and> group_key d = k")
    case False
    then have g: "group_dishes k (d # ds) = group_dishes k ds"
      by (auto simp: group_dishes_def)
    from False have m: "map_of (summarize_dish s d) k = map_of s k"
      by (auto simp: map_of_summarize_dish)
    show ?thesis
      by (simp add: Cons [of "summarize_dish s d"] g m split: list.split)
  next
    case True
    then have g: "group_dishes k (d # ds) = d # group_dishes k ds"
      by (simp add: group_dishes_def)
    from True have m: "map_of (summarize_dish s d) k =
        Some (add_dish d (case map_of s k of None \<Rightarrow> new_group d | Some g \<Rightarrow> g))"
      by (simp add: map_of_summarize_dish)
    show ?thesis
      by (simp add: Cons [of "summarize_dish s d"] g m add_all_Cons add_all_Nil
          split: list.split)
  qed
qed

lemma distinct_summarize_dish:
  "distinct (map fst s) \<Longrightarrow> distinct (map fst (summarize_dish s d))"
  by (simp add: summarize_dish_def Let_def distinct_update)

lemma distinct_summarize:
  "distinct (map fst s) \<Longrightarrow> distinct (map fst (summarize ds s))"
  by (induction ds arbitrary: s) (simp_all add: distinct_summarize_dish)

lemma keys_summarize_dish:
  "fst ` set (summarize_dish s d) =
     (if quality_checks d = [] then {} else {group_key d}) \<union> fst ` set s"
  by (simp add: summarize_dish_def Let_def dom_update)

lemma keys_summarize:
  "fst ` set (summarize ds s) =
     fst ` set s \<union> group_key ` {d \<in> set ds. quality_checks d \<noteq> []}"
proof (induction ds arbitrary: s)
  case Nil
  show ?case by simp
next
  case (Cons d ds)
  show ?case
    by (auto simp: Cons [of "summarize_dish s d"] keys_summarize_dish)
qed

text \<open>The entry of a group, from the empty dictionary.\<close>

lemma group_entry:
  assumes "d \<in> set ds" and "quality_checks d \<noteq> []"
  shows "\<exists>d0. d0 \<in> set (group_dishes (group_key d) ds) \<and>
           map_of (summarize ds []) (group_key d) =
             Some (add_all (new_group d0) (group_dishes (group_key d) ds))"
proof -
  from assms have "d \<in> set (group_dishes (group_key d) ds)"
    by (simp add: group_dishes_def)
  then obtain d0 G where G: "group_dishes (group_key d) ds = d0 # G"
    by (cases "group_dishes (group_key d) ds") auto
  then have "d0 \<in> set (group_dishes (group_key d) ds)" by simp
  moreover have "map_of (summarize ds []) (group_key d) =
      Some (add_all (new_group d0) (group_dishes (group_key d) ds))"
    by (simp add: map_of_summarize [of ds "[]" "group_key d"] G)
  ultimately show ?thesis by blast
qed

lemma entry_is_group:
  assumes "(k, g) \<in> set (summarize ds [])"
  shows "\<exists>d0. d0 \<in> set (group_dishes k ds) \<and> g = add_all (new_group d0) (group_dishes k ds)"
proof -
  have "distinct (map fst (summarize ds []))" by (simp add: distinct_summarize)
  with assms have m: "map_of (summarize ds []) k = Some g" by simp
  show ?thesis
  proof (cases "group_dishes k ds")
    case Nil
    with m show ?thesis by (simp add: map_of_summarize [of ds "[]" k])
  next
    case (Cons d0 G)
    with m have "g = add_all (new_group d0) (group_dishes k ds)"
      by (simp add: map_of_summarize [of ds "[]" k])
    with Cons show ?thesis by auto
  qed
qed

lemma finalized_fields:
  "dish_count (finalized g) = dish_count g"
  "total_initial (finalized g) = total_initial g"
  "total_surviving (finalized g) = total_surviving g"
  "max_days (finalized g) = max_days g"
  by (simp_all add: finalized_def)

lemma finalized_rate:
  "survival_rate g = 0 \<Longrightarrow>
   survival_rate (finalized g) =
     (if 0 < total_initial g
      then real_of_int (total_surviving g) / real_of_int (total_initial g) * 100 else 0)"
  by (simp add: finalized_def)

lemma new_group_fields:
  "dish_count (new_group d) = 0" "total_initial (new_group d) = 0"
  "total_surviving (new_group d) = 0" "survival_rate (new_group d) = 0"
  "max_days (new_group d) = 0"
  by (simp_all add: new_group_def)

lemma rows_of_entries:
  assumes "process_summary_data ds = Inr rows" and "r \<in> set rows"
  shows "\<exists>k g. (k, g) \<in> set (summarize ds []) \<and> r = finalized g"
  using assms by (fastforce simp: process_summary_data_cases split: if_splits)

lemma length_summary_rows:
  "length (map (finalized \<circ> snd) (summarize ds [])) =
     card (group_key ` {e \<in> set ds. quality_checks e \<noteq> []})"
proof -
  have "distinct (map fst (summarize ds []))" by (simp add: distinct_summarize)
  then have "card (set (map fst (summarize ds []))) = length (map fst (summarize ds []))"
    by (rule distinct_card)
  then show ?thesis
    by (simp add: keys_summarize)
qed

text \<open>
  C3, amended. Unless some group's division of line 406 leaves the float range, the
  summary is produced and has one row for each grouping key that occurs among the dishes
  with quality checks. For a dish \<open>d\<close> with quality checks, the row of its key counts the dishes
  with checks that share the key (so two such dishes are both counted), its
  \<open>total_initial\<close> is the sum of their \<open>fish_count\<close>, its \<open>total_surviving\<close> the sum of
  \<open>max 0 (fish_count - deaths)\<close> over them, and its \<open>survival_rate\<close> is
  \<open>total_surviving / total_initial * 100\<close> when \<open>total_initial\<close> is positive.
\<close>

theorem summary_group_totals:
  assumes "d \<in> set ds" and "quality_checks d \<noteq> []"
    and "\<not> summary_raises (summarize ds [])"
  shows "\<exists>rows g.
           process_summary_data ds = Inr rows \<and>
           length rows = card (group_key ` {e \<in> set ds. quality_checks e \<noteq> []}) \<and>
           map_of (summarize ds []) (group_key d) = Some g \<and>
           finalized g \<in> set rows \<and>
           dish_count (finalized g) = int (length (group_dishes (group_key d) ds)) \<and>
           total_initial (finalized g) =
             sum_list (map (\<lambda>e. get_default (fish_count e) 0) (group_dishes (group_key d) ds)) \<and>
           total_surviving (finalized g) =
             sum_list (map surviving (group_dishes (group_key d) ds)) \<and>
           survival_rate (finalized g) =
             (if 0 < total_initial (finalized g)
              then real_of_int (total_surviving (finalized g)) /
                   real_of_int (total_initial (finalized g)) * 100
              else 0)"
proof -
  let ?G = "group_dishes (group_key d) ds"
  let ?rows = "sort_key (\<lambda>x. (s_cross_id x, s_genotype x))
      (map (finalized \<circ> snd) (summarize ds []))"
  from group_entry [OF assms(1,2)] obtain d0 where
    m: "map_of (summarize ds []) (group_key d) = Some (add_all (new_group d0) ?G)"
    by blast
  let ?g = "add_all (new_group d0) ?G"
  have rows: "process_summary_data ds = Inr ?rows"
    using assms(3) by (simp add: process_summary_data_cases)
  have len: "length ?rows = card (group_key ` {e \<in> set ds. quality_checks e \<noteq> []})"
    using length_summary_rows [of ds] by simp
  from m have "(group_key d, ?g) \<in> set (summarize ds [])" by (rule map_of_SomeD)
  then have mem: "finalized ?g \<in> set ?rows" by force
  have dc: "dish_count (finalized ?g) = int (length ?G)"
    by (simp add: finalized_fields add_all_counts new_group_fields)
  have ti: "total_initial (finalized ?g) =
      sum_list (map (\<lambda>e. get_default (fish_count e) 0) ?G)"
    by (simp add: finalized_fields add_all_counts new_group_fields)
  have ts: "total_surviving (finalized ?g) = sum_list (map surviving ?G)"
    by (simp add: finalized_fields add_all_counts new_group_fields)
  have "survival_rate ?g = 0" by (simp add: add_all_counts new_group_fields)
  then have sr: "survival_rate (finalized ?g) =
      (if 0 < total_initial (finalized ?g)
       then real_of_int (total_surviving (finalized ?g)) /
            real_of_int (total_initial (finalized ?g)) * 100
       else 0)"
    by (simp only: finalized_rate finalized_fields)
  from rows len m mem dc ti ts sr show ?thesis by blast
qed

theorem summary_group_totals_witness:
  "dish_a \<in> set [dish_a, dish_b] \<and> quality_checks dish_a \<noteq> [] \<and>
   \<not> summary_raises (summarize [dish_a, dish_b] []) \<and>
   group_key dish_b = group_key dish_a \<and>
   group_dishes (group_key dish_a) [dish_a, dish_b] = [dish_a, dish_b] \<and>
   total_deaths dish_a = 2 \<and> total_deaths dish_b = 4 \<and>
   process_summary_data [dish_a, dish_b] =
     Inr [\<lparr>s_cross_id = ''X5'', s_genotype = ''nacre'', s_date_fertilized = ''20240101'',
           dish_count = 2, total_initial = 30, total_surviving = 24,
           survival_rate = 80, max_days = 3\<rparr>] \<and>
   (\<exists>g. map_of (summarize [dish_a, dish_b] []) (group_key dish_a) = Some g \<and>
        dish_count (finalized g) = 2 \<and> total_initial (finalized g) = 30 \<and>
        total_surviving (finalized g) = 24 \<and> survival_rate (finalized g) = 80)"
proof -
  have q: "quality_checks dish_a \<noteq> []" by (simp add: dish_a_def)
  have k: "group_key dish_b = group_key dish_a" by (simp add: dish_b_def group_key_def)
  have qb: "quality_checks dish_b \<noteq> []" by (simp add: dish_b_def)
  have G: "group_dishes (group_key dish_a) [dish_a, dish_b] = [dish_a, dish_b]"
    using q qb k by (simp add: group_dishes_def)
  have da: "total_deaths dish_a = 2" by code_simp
  have db: "total_deaths dish_b = 4" by code_simp
  have na: "get_default (fish_count dish_a) 0 = 10" by code_simp
  have nb: "get_default (fish_count dish_b) 0 = 20" by code_simp
  have sa: "surviving dish_a = 8" by (simp add: surviving_def da na)
  have sb: "surviving dish_b = 16" by (simp add: surviving_def db nb)
  have p: "process_summary_data [dish_a, dish_b] =
     Inr [\<lparr>s_cross_id = ''X5'', s_genotype = ''nacre'', s_date_fertilized = ''20240101'',
           dish_count = 2, total_initial = 30, total_surviving = 24,
           survival_rate = 80, max_days = 3\<rparr>]"
    by code_simp
  have no: "\<not> summary_raises (summarize [dish_a, dish_b] [])" by code_simp
  from summary_group_totals [of dish_a "[dish_a, dish_b]", OF _ q no]
  obtain g where
    g: "map_of (summarize [dish_a, dish_b] []) (group_key dish_a) = Some g"
      "dish_count (finalized g) = 2" "total_initial (finalized g) = 30"
      "total_surviving (finalized g) = 24" "survival_rate (finalized g) = 80"
    by (auto simp: G na nb sa sb)
  with q k G da db p no show ?thesis by auto
qed

text \<open>
  C3 as stated fails. The dish of ten fish with two deaths and the dish of one fish whose
  check reports \<open>- 10 ^ 310\<close> deaths share their grouping key; their group has
  \<open>total_initial = 11\<close> and \<open>total_surviving = 10 ^ 310 + 9\<close>, line 406 raises
  \<^verbatim>\<open>OverflowError\<close> outside every \<^verbatim>\<open>try\<close> of the function, and the summary has no row.
\<close>

theorem summary_overflows:
  "group_key swollen_dish = group_key dish_a \<and>
   quality_checks dish_a \<noteq> [] \<and> quality_checks swollen_dish \<noteq> [] \<and>
   map (\<lambda>item. (total_initial (snd item), total_surviving (snd item)))
     (summarize [dish_a, swollen_dish] []) = [(11, 10 ^ 310 + 9)] \<and>
   process_summary_data [dish_a, swollen_dish] = Inl OverflowError"
proof -
  have a: "group_key swollen_dish = group_key dish_a"
    by (simp add: swollen_dish_def group_key_def)
  have b: "quality_checks dish_a \<noteq> []" by (simp add: dish_a_def)
  have c: "quality_checks swollen_dish \<noteq> []" by (simp add: swollen_dish_def)
  have d: "map (\<lambda>item. (total_initial (snd item), total_surviving (snd item)))
     (summarize [dish_a, swollen_dish] []) = [(11, 10 ^ 310 + 9)]"
    by code_simp
  have e: "process_summary_data [dish_a, swollen_dish] = Inl OverflowError" by code_simp
  from a b c d e show ?thesis by blast
qed

subsection \<open>Bounds of the summary\<close>

lemma total_deaths_nonneg:
  assumes "\<forall>item \<in> set (quality_checks d). 0 \<le> deaths_of (snd item)"
  shows "0 \<le> total_deaths d"
  unfolding total_deaths_def using assms by (intro sum_list_nonneg) auto

lemma surviving_bounds:
  assumes "0 \<le> get_default (fish_count d) 0" and "0 \<le> total_deaths d"
  shows "0 \<le> surviving d" and "surviving d \<le> get_default (fish_count d) 0"
  using assms by (simp_all add: surviving_def)

lemma rate_bounds:
  fixes s t :: int
  assumes "0 \<le> s" and "s \<le> t" and "0 < t"
  shows "0 \<le> real_of_int s / real_of_int t * 100"
    and "real_of_int s / real_of_int t * 100 \<le> 100"
proof -
  from assms have le: "real_of_int s \<le> real_of_int t" and pos: "0 < real_of_int t"
    by simp_all
  from assms show "0 \<le> real_of_int s / real_of_int t * 100" by simp
  from le pos show "real_of_int s / real_of_int t * 100 \<le> 100"
    by (simp add: field_simps)
qed

lemma bounded_rate_fits:
  assumes "0 \<le> s" and "s \<le> t"
  shows "\<not> rate_raises s t"
proof
  assume "rate_raises s t"
  then have t: "0 < t" and big: "float_limit * t \<le> \<bar>s\<bar>"
    by (auto simp: rate_raises_def)
  from t float_limit_gt_1 have "1 * t < float_limit * t"
    by (intro mult_strict_right_mono) simp_all
  with t big assms show False by simp
qed

text \<open>
  C10. With no negative \<open>fish_count\<close> and no negative \<open>num_dead\<close>, the summary is
  produced and each of its rows has \<open>0 \<le> total_surviving \<le> total_initial\<close> and
  \<open>0 \<le> survival_rate \<le> 100\<close>. The rows of the detailed report are not bounded so:
  under the same conditions a dish has a row with negative \<open>remaining\<close> and negative
  \<open>survival_rate\<close>.
\<close>

theorem summary_rows_bounded:
  assumes "\<forall>d \<in> set ds. 0 \<le> get_default (fish_count d) 0"
    and "\<forall>d \<in> set ds. \<forall>item \<in> set (quality_checks d). 0 \<le> deaths_of (snd item)"
  shows "(\<exists>rows. process_summary_data ds = Inr rows \<and>
            (\<forall>r \<in> set rows.
               0 \<le> total_surviving r \<and> total_surviving r \<le> total_initial r \<and>
               0 \<le> survival_rate r \<and> survival_rate r \<le> 100)) \<and>
         (\<exists>e. 0 \<le> get_default (fish_count e) 0 \<and>
              (\<forall>item \<in> set (quality_checks e). 0 \<le> deaths_of (snd item)) \<and>
              (\<exists>r \<in> set (dish_rows e). r_remaining r < 0 \<and> r_survival_rate r < 0))"
proof
  let ?rows = "sort_key (\<lambda>x. (s_cross_id x, s_genotype x))
      (map (finalized \<circ> snd) (summarize ds []))"
  have entry: "0 \<le> total_surviving g \<and> total_surviving g \<le> total_initial g \<and>
      survival_rate g = 0" if kg: "(k, g) \<in> set (summarize ds [])" for k g
  proof -
    from entry_is_group [OF kg] obtain d0 where
      g: "g = add_all (new_group d0) (group_dishes k ds)" by blast
    let ?G = "group_dishes k ds"
    have sub: "set ?G \<subseteq> set ds" by (auto simp: group_dishes_def)
    have ts: "total_surviving g = sum_list (map surviving ?G)"
      by (simp add: g add_all_counts new_group_fields)
    have ti: "total_initial g = sum_list (map (\<lambda>e. get_default (fish_count e) 0) ?G)"
      by (simp add: g add_all_counts new_group_fields)
    have sr: "survival_rate g = 0"
      by (simp add: g add_all_counts new_group_fields)
    have each: "0 \<le> surviving e \<and> surviving e \<le> get_default (fish_count e) 0"
      if "e \<in> set ?G" for e
    proof -
      from that sub have e: "e \<in> set ds" by blast
      with assms(2) have "0 \<le> total_deaths e" by (intro total_deaths_nonneg) blast
      with assms(1) e show ?thesis by (simp add: surviving_bounds)
    qed
    have lo: "0 \<le> total_surviving g"
      unfolding ts using each by (intro sum_list_nonneg) auto
    have hi: "total_surviving g \<le> total_initial g"
      unfolding ts ti using each by (intro sum_list_mono) auto
    from lo hi sr show ?thesis by blast
  qed
  have "\<not> rate_raises (total_surviving (snd item)) (total_initial (snd item))"
    if "item \<in> set (summarize ds [])" for item
  proof -
    obtain k g where item: "item = (k, g)" by (cases item)
    with that entry [of k g] have b: "0 \<le> total_surviving g" "total_surviving g \<le> total_initial g"
      by simp_all
    from b have "\<not> rate_raises (total_surviving g) (total_initial g)"
      by (rule bounded_rate_fits)
    with item show ?thesis by simp
  qed
  then have "\<not> summary_raises (summarize ds [])"
    by (auto simp: summary_raises_def list_ex_iff)
  then have rows: "process_summary_data ds = Inr ?rows"
    by (simp add: process_summary_data_cases)
  have "0 \<le> total_surviving r \<and> total_surviving r \<le> total_initial r \<and>
        0 \<le> survival_rate r \<and> survival_rate r \<le> 100" if "r \<in> set ?rows" for r
  proof -
    from rows_of_entries [OF rows that] obtain k g where
      kg: "(k, g) \<in> set (summarize ds [])" and r: "r = finalized g" by blast
    from entry [OF kg] have lo: "0 \<le> total_surviving g"
      and hi: "total_surviving g \<le> total_initial g" and sr: "survival_rate g = 0"
      by simp_all
    have rate: "0 \<le> survival_rate (finalized g) \<and> survival_rate (finalized g) \<le> 100"
    proof (cases "0 < total_initial g")
      case True
      with sr have "survival_rate (finalized g) =
          real_of_int (total_surviving g) / real_of_int (total_initial g) * 100"
        by (simp only: finalized_rate if_True)
      with rate_bounds [OF lo hi True] show ?thesis by simp
    next
      case False
      with sr show ?thesis by (simp add: finalized_rate)
    qed
    from lo hi rate show ?thesis by (simp add: r finalized_fields)
  qed
  with rows show "\<exists>rows. process_summary_data ds = Inr rows \<and>
            (\<forall>r \<in> set rows.
               0 \<le> total_surviving r \<and> total_surviving r \<le> total_initial r \<and>
               0 \<le> survival_rate r \<and> survival_rate r \<le> 100)"
    by blast
next
  have n: "0 \<le> get_default (fish_count overcounted_dish) 0" by code_simp
  have q: "\<forall>item \<in> set (quality_checks overcounted_dish). 0 \<le> deaths_of (snd item)"
    by (simp add: overcounted_dish_def get_default_def)
  have ne: "dish_rows overcounted_dish \<noteq> []" by code_simp
  have a: "r_remaining (last (dish_rows overcounted_dish)) < 0" by code_simp
  have b: "r_survival_rate (last (dish_rows overcounted_dish)) < 0" by code_simp
  from ne have "last (dish_rows overcounted_dish) \<in> set (dish_rows overcounted_dish)"
    by simp
  with a b have "\<exists>r \<in> set (dish_rows overcounted_dish). r_remaining r < 0 \<and> r_survival_rate r < 0"
    by blast
  with n q show "\<exists>e. 0 \<le> get_default (fish_count e) 0 \<and>
              (\<forall>item \<in> set (quality_checks e). 0 \<le> deaths_of (snd item)) \<and>
              (\<exists>r \<in> set (dish_rows e). r_remaining r < 0 \<and> r_survival_rate r < 0)"
    by blast
qed

theorem summary_rows_bounded_witness:
  "process_summary_data [overcounted_dish, tied_dish] =
     Inr [\<lparr>s_cross_id = ''X1'', s_genotype = ''wt'', s_date_fertilized = ''20240101'',
           dish_count = 1, total_initial = 3, total_surviving = 0,
           survival_rate = 0, max_days = 2\<rparr>,
          \<lparr>s_cross_id = ''X2'', s_genotype = ''wt'', s_date_fertilized = ''20240101'',
           dish_count = 1, total_initial = 10, total_surviving = 6,
           survival_rate = 60, max_days = 4\<rparr>] \<and>
   total_deaths overcounted_dish = 5 \<and>
   (\<exists>rows. process_summary_data [overcounted_dish, tied_dish] = Inr rows \<and>
      list_all (\<lambda>r. 0 \<le> total_surviving r \<and> total_surviving r \<le> total_initial r \<and>
                    0 \<le> survival_rate r \<and> survival_rate r \<le> 100) rows)"
proof -
  have p: "process_summary_data [overcounted_dish, tied_dish] =
     Inr [\<lparr>s_cross_id = ''X1'', s_genotype = ''wt'', s_date_fertilized = ''20240101'',
           dish_count = 1, total_initial = 3, total_surviving = 0,
           survival_rate = 0, max_days = 2\<rparr>,
          \<lparr>s_cross_id = ''X2'', s_genotype = ''wt'', s_date_fertilized = ''20240101'',
           dish_count = 1, total_initial = 10, total_surviving = 6,
           survival_rate = 60, max_days = 4\<rparr>]"
    by code_simp
  have dd: "total_deaths overcounted_dish = 5" by code_simp
  have h1: "\<forall>d \<in> set [overcounted_dish, tied_dish]. 0 \<le> get_default (fish_count d) 0"
    by (simp add: overcounted_dish_def tied_dish_def get_default_def)
  have h2: "\<forall>d \<in> set [overcounted_dish, tied_dish].
      \<forall>item \<in> set (quality_checks d). 0 \<le> deaths_of (snd item)"
    by (simp add: overcounted_dish_def tied_dish_def get_default_def)
  from summary_rows_bounded [OF h1 h2]
  have "\<exists>rows. process_summary_data [overcounted_dish, tied_dish] = Inr rows \<and>
      list_all (\<lambda>r. 0 \<le> total_surviving r \<and> total_surviving r \<le> total_initial r \<and>
                    0 \<le> survival_rate r \<and> survival_rate r \<le> 100) rows"
    by (simp add: list_all_iff)
  with p dd show ?thesis by blast
qed

subsection \<open>The longest observation of a group\<close>

text \<open>
  C5, as the code has it. For a dish \<open>d\<close> with quality checks, the \<open>max_days\<close> of its
  group is the maximum of \<open>0\<close> and, over the group's dishes that have a dictionary check
  with a non-empty canonical date, the days from the dish's fertilisation date to the
  greatest canonical date among its dictionary checks. So it is never negative, and it is
  at least that number of days for \<open>d\<close> itself when \<open>d\<close> has such a check. Checks that are
  strings of the old format do not enter. The group's row carries this \<open>max_days\<close>
  whenever the summary is produced.
\<close>

theorem max_days_of_group:
  assumes "d \<in> set ds" and "quality_checks d \<noteq> []"
  shows "\<exists>g.
           map_of (summarize ds []) (group_key d) = Some g \<and>
           max_days g =
             Max (set (0 # map latest_check_days
                            (filter dated (group_dishes (group_key d) ds)))) \<and>
           0 \<le> max_days g \<and>
           (if dated d then latest_check_days d \<le> max_days g else True) \<and>
           (\<forall>rows. process_summary_data ds = Inr rows \<longrightarrow>
              finalized g \<in> set rows \<and> max_days (finalized g) = max_days g)"
proof -
  let ?G = "group_dishes (group_key d) ds"
  let ?D = "map latest_check_days (filter dated ?G)"
  from group_entry [OF assms] obtain d0 where
    m: "map_of (summarize ds []) (group_key d) = Some (add_all (new_group d0) ?G)"
    by blast
  let ?g = "add_all (new_group d0) ?G"
  from m have entry: "(group_key d, ?g) \<in> set (summarize ds [])" by (rule map_of_SomeD)
  have md: "max_days ?g = Max (set (0 # ?D))"
    by (simp only: add_all_max_days new_group_fields)
  have nonneg: "0 \<le> max_days ?g"
    unfolding md by (rule Max_ge) simp_all
  have ge: "latest_check_days d \<le> max_days ?g" if "dated d"
  proof -
    from assms that have "latest_check_days d \<in> set (0 # ?D)"
      by (simp add: group_dishes_def)
    then show ?thesis unfolding md by (intro Max_ge) simp_all
  qed
  have row: "finalized ?g \<in> set rows \<and> max_days (finalized ?g) = max_days ?g"
    if "process_summary_data ds = Inr rows" for rows
  proof -
    from that have "rows = sort_key (\<lambda>x. (s_cross_id x, s_genotype x))
        (map (finalized \<circ> snd) (summarize ds []))"
      by (simp add: process_summary_data_cases split: if_splits)
    with entry have "finalized ?g \<in> set rows" by force
    then show ?thesis by (simp add: finalized_fields)
  qed
  from m md nonneg ge row show ?thesis by auto
qed

theorem max_days_of_group_witness:
  "dish_b \<in> set [dish_a, dish_b] \<and> quality_checks dish_b \<noteq> [] \<and> dated dish_b \<and>
   latest_structured_date dish_b = ''20240104'' \<and> latest_check_days dish_b = 3 \<and>
   latest_check_days dish_a = 1 \<and>
   process_summary_data [dish_a, dish_b] =
     Inr [\<lparr>s_cross_id = ''X5'', s_genotype = ''nacre'', s_date_fertilized = ''20240101'',
           dish_count = 2, total_initial = 30, total_surviving = 24,
           survival_rate = 80, max_days = 3\<rparr>] \<and>
   (\<exists>g. map_of (summarize [dish_a, dish_b] []) (group_key dish_b) = Some g \<and>
      max_days g = 3 \<and> max_days (finalized g) = 3)"
proof -
  let ?rows = "[\<lparr>s_cross_id = ''X5'', s_genotype = ''nacre'', s_date_fertilized = ''20240101'',
           dish_count = 2, total_initial = 30, total_surviving = 24,
           survival_rate = 80, max_days = 3\<rparr>]"
  have q: "quality_checks dish_b \<noteq> []" by (simp add: dish_b_def)
  have qa: "quality_checks dish_a \<noteq> []" by (simp add: dish_a_def)
  have k: "group_key dish_a = group_key dish_b" by (simp add: dish_b_def group_key_def)
  have G: "group_dishes (group_key dish_b) [dish_a, dish_b] = [dish_a, dish_b]"
    using q qa k by (simp add: group_dishes_def)
  have l: "latest_structured_date dish_b = ''20240104''" by code_simp
  have la: "dated dish_a" by code_simp
  have lb: "dated dish_b" by code_simp
  have da: "latest_check_days dish_a = 1" by code_simp
  have db: "latest_check_days dish_b = 3" by code_simp
  have p: "process_summary_data [dish_a, dish_b] = Inr ?rows" by code_simp
  from max_days_of_group [of dish_b "[dish_a, dish_b]", OF _ q]
  obtain g where g: "map_of (summarize [dish_a, dish_b] []) (group_key dish_b) = Some g"
    and md: "max_days g = 3"
    and row: "\<forall>rows. process_summary_data [dish_a, dish_b] = Inr rows \<longrightarrow>
              finalized g \<in> set rows \<and> max_days (finalized g) = max_days g"
    by (auto simp: G la lb da db)
  from row p md have "max_days (finalized g) = 3" by simp
  with g md have "\<exists>g. map_of (summarize [dish_a, dish_b] []) (group_key dish_b) = Some g \<and>
      max_days g = 3 \<and> max_days (finalized g) = 3"
    by blast
  with q l lb da db p show ?thesis by simp
qed

text \<open>
  C5 as stated fails twice. The dish whose last check is an old-format string of
  2024-01-10, fertilised on 2024-01-01, has the greatest canonical date 20240110 over all
  its checks, nine days after fertilisation, yet its group's \<open>max_days\<close> is \<open>2\<close>, from the
  dictionary check of 2024-01-03. The dish fertilised a week after its only check has
  \<open>- 7\<close> days, yet its group's \<open>max_days\<close> is \<open>0\<close>.
\<close>

theorem max_days_ignores_legacy_and_is_floored:
  "process_summary_data [legacy_last_dish] =
     Inr [\<lparr>s_cross_id = ''X6'', s_genotype = ''nacre'', s_date_fertilized = ''20240101'',
           dish_count = 1, total_initial = 10, total_surviving = 10,
           survival_rate = 100, max_days = 2\<rparr>] \<and>
   latest_date_of_all_checks legacy_last_dish = ''20240110'' \<and>
   days_to_latest_of_all_checks legacy_last_dish = 9 \<and>
   process_summary_data [late_dof_dish] =
     Inr [\<lparr>s_cross_id = ''X7'', s_genotype = ''nacre'', s_date_fertilized = ''20240110'',
           dish_count = 1, total_initial = 10, total_surviving = 10,
           survival_rate = 100, max_days = 0\<rparr>] \<and>
   latest_date_of_all_checks late_dof_dish = ''20240103'' \<and>
   days_to_latest_of_all_checks late_dof_dish = - 7"
proof -
  have a: "process_summary_data [legacy_last_dish] =
     Inr [\<lparr>s_cross_id = ''X6'', s_genotype = ''nacre'', s_date_fertilized = ''20240101'',
           dish_count = 1, total_initial = 10, total_surviving = 10,
           survival_rate = 100, max_days = 2\<rparr>]"
    by code_simp
  have b: "latest_date_of_all_checks legacy_last_dish = ''20240110''" by code_simp
  have c: "days_to_latest_of_all_checks legacy_last_dish = 9" by code_simp
  have d: "process_summary_data [late_dof_dish] =
     Inr [\<lparr>s_cross_id = ''X7'', s_genotype = ''nacre'', s_date_fertilized = ''20240110'',
           dish_count = 1, total_initial = 10, total_surviving = 10,
           survival_rate = 100, max_days = 0\<rparr>]"
    by code_simp
  have e: "latest_date_of_all_checks late_dof_dish = ''20240103''" by code_simp
  have f: "days_to_latest_of_all_checks late_dof_dish = - 7" by code_simp
  from a b c d e f show ?thesis by blast
qed

end
